theory Spec2Isabelle
  imports Main
begin

section \<open>Python strings\<close>

text \<open>
  A Python \<open>str\<close> is a sequence of Unicode code points. It is modelled as the list of
  its code points, so that \<open>len\<close>, slicing, \<open>startswith\<close> and \<open>replace\<close> count what
  Python counts. \<open>ascii\<close> embeds an ASCII literal.
\<close>

type_synonym pystr = "nat list"

definition ascii :: "string \<Rightarrow> pystr" where
  "ascii s = map of_char s"

text \<open>\<open>s.startswith(p)\<close>\<close>

definition startswith :: "pystr \<Rightarrow> pystr \<Rightarrow> bool" where
  "startswith s p = (take (length p) s = p)"

text \<open>\<open>p in s\<close> for strings: \<open>p\<close> occurs in \<open>s\<close> at some position.\<close>

fun contains :: "pystr \<Rightarrow> pystr \<Rightarrow> bool" where
  "contains p [] = (p = [])"
| "contains p (c # cs) = (startswith (c # cs) p \<or> contains p cs)"

text \<open>
  \<open>s.lower()\<close>. The ASCII capitals map to their small letters. Of the other code
  points only U+0130 and U+212A have a lowercase form with an ASCII code point in it;
  every remaining code point that Python changes is sent to code points above U+007F,
  and is left as it is here.
\<close>

definition lower_cp :: "nat \<Rightarrow> pystr" where
  "lower_cp c =
     (if 65 \<le> c \<and> c \<le> 90 then [c + 32]
      else if c = 0x130 then [0x69, 0x307]
      else if c = 0x212A then [0x6B]
      else [c])"

definition lower :: "pystr \<Rightarrow> pystr" where
  "lower s = concat (map lower_cp s)"

text \<open>\<open>str.isspace\<close> on one code point, and \<open>s.strip()\<close> without argument.\<close>

definition isspace :: "nat \<Rightarrow> bool" where
  "isspace c =
     ((9 \<le> c \<and> c \<le> 13) \<or> (0x1C \<le> c \<and> c \<le> 0x20) \<or> c = 0x85 \<or> c = 0xA0
      \<or> c = 0x1680 \<or> (0x2000 \<le> c \<and> c \<le> 0x200A) \<or> c = 0x2028 \<or> c = 0x2029
      \<or> c = 0x202F \<or> c = 0x205F \<or> c = 0x3000)"

definition lstrip :: "pystr \<Rightarrow> pystr" where
  "lstrip s = dropWhile isspace s"

definition rstrip :: "pystr \<Rightarrow> pystr" where
  "rstrip s = rev (dropWhile isspace (rev s))"

definition strip :: "pystr \<Rightarrow> pystr" where
  "strip s = lstrip (rstrip s)"

text \<open>\<open>s.split('\n')\<close>: the pieces between line feeds; the empty string gives one empty piece.\<close>

fun split_nl :: "pystr \<Rightarrow> pystr list" where
  "split_nl [] = [[]]"
| "split_nl (c # cs) =
     (if c = 10 then [] # split_nl cs
      else (case split_nl cs of [] \<Rightarrow> [[c]] | l # ls \<Rightarrow> (c # l) # ls))"

text \<open>
  \<open>s.replace(old, new)\<close>: every occurrence of \<open>old\<close>, found from the left without
  overlap, becomes \<open>new\<close>. With an empty \<open>old\<close> Python puts \<open>new\<close> before every
  code point and at the end.
\<close>

fun replace :: "pystr \<Rightarrow> pystr \<Rightarrow> pystr \<Rightarrow> pystr" where
  "replace [] old new = (if old = [] then new else [])"
| "replace (c # cs) old new =
     (if old = [] then new @ c # replace cs old new
      else if startswith (c # cs) old then new @ replace (drop (length old - 1) cs) old new
      else c # replace cs old new)"

text \<open>\<open>str(n)\<close> for a natural number: its decimal digits.\<close>

fun str_nat :: "nat \<Rightarrow> pystr" where
  "str_nat n = (if n < 10 then [48 + n] else str_nat (n div 10) @ [48 + n mod 10])"


section \<open>Files\<close>

text \<open>
  The file system as the program sees it: a path is absent, or present but failing every
  \<open>open\<close> (permissions, a directory, bytes that are not UTF-8), or a text file. Every
  exception of the I/O calls is a value of \<open>io_error\<close>, so that each \<open>try\<close> of the
  source is a case distinction in the model.
\<close>

datatype file_state = Absent | Inaccessible | File pystr

datatype io_error = OSError | UnicodeEncodeError

type_synonym filesystem = "pystr \<Rightarrow> file_state"

text \<open>\<open>os.path.exists(p)\<close>\<close>

definition path_exists :: "filesystem \<Rightarrow> pystr \<Rightarrow> bool" where
  "path_exists fs p = (fs p \<noteq> Absent)"

text \<open>
  Text mode reads with universal newlines: \<open>\r\n\<close> and a lone \<open>\r\<close> arrive as \<open>\n\<close>.
\<close>

fun read_newlines :: "pystr \<Rightarrow> pystr" where
  "read_newlines [] = []"
| "read_newlines [c] = [if c = 13 then 10 else c]"
| "read_newlines (c # d # cs) =
     (if c = 13 then (if d = 10 then 10 # read_newlines cs else 10 # read_newlines (d # cs))
      else c # read_newlines (d # cs))"

text \<open>\<open>open(p, 'r', encoding='utf-8').read()\<close>\<close>

definition read_file :: "filesystem \<Rightarrow> pystr \<Rightarrow> io_error + pystr" where
  "read_file fs p =
     (case fs p of Absent \<Rightarrow> Inl OSError | Inaccessible \<Rightarrow> Inl OSError
      | File c \<Rightarrow> Inr (read_newlines c))"

text \<open>
  A string can be written as UTF-8 when it has no surrogate code point (and no value beyond
  U+10FFFF, which no Python string holds).
\<close>

definition encodable :: "pystr \<Rightarrow> bool" where
  "encodable s = list_all (\<lambda>c. c < 0xD800 \<or> (0xE000 \<le> c \<and> c < 0x110000)) s"

text \<open>
  \<open>open(p, 'a', encoding='utf-8').write(s)\<close> and the same with mode \<open>'w'\<close>, on a system
  whose line separator is \<open>\n\<close>. Opening creates or (mode \<open>'w'\<close>) empties the file before
  the write can fail on the encoding. The result is the file system afterwards and the
  exception raised, if any.
\<close>

definition append_file :: "filesystem \<Rightarrow> pystr \<Rightarrow> pystr \<Rightarrow> filesystem \<times> io_error option" where
  "append_file fs p s =
     (case fs p of
        Inaccessible \<Rightarrow> (fs, Some OSError)
      | Absent \<Rightarrow> (if encodable s then (fs(p := File s), None)
                   else (fs(p := File []), Some UnicodeEncodeError))
      | File c \<Rightarrow> (if encodable s then (fs(p := File (c @ s)), None)
                   else (fs, Some UnicodeEncodeError)))"

definition write_file :: "filesystem \<Rightarrow> pystr \<Rightarrow> pystr \<Rightarrow> filesystem \<times> io_error option" where
  "write_file fs p s =
     (case fs p of
        Inaccessible \<Rightarrow> (fs, Some OSError)
      | _ \<Rightarrow> (if encodable s then (fs(p := File s), None)
               else (fs(p := File []), Some UnicodeEncodeError)))"

section \<open>The clock\<close>

record datetime =
  year :: nat
  month :: nat
  day :: nat
  hour :: nat
  minute :: nat
  second :: nat

definition zpad :: "nat \<Rightarrow> nat \<Rightarrow> pystr" where
  "zpad w n = replicate (w - length (str_nat n)) 48 @ str_nat n"

text \<open>\<open>dt.strftime("%Y-%m-%d %H:%M:%S")\<close>\<close>

definition strftime :: "datetime \<Rightarrow> pystr" where
  "strftime dt =
     zpad 4 (year dt) @ ascii ''-'' @ zpad 2 (month dt) @ ascii ''-'' @ zpad 2 (day dt)
     @ ascii '' '' @ zpad 2 (hour dt) @ ascii '':'' @ zpad 2 (minute dt) @ ascii '':''
     @ zpad 2 (second dt)"

section \<open>The chat bot\<close>

text \<open>
  The module \<open>prompts\<close> is imported by \<open>main.py\<close>; its dictionary \<open>SYSTEM_PROMPTS\<close>
  (in declaration order, keys distinct) and its \<open>DEFAULT_PROMPT\<close> are parameters.
\<close>

record prompts =
  SYSTEM_PROMPTS :: "(pystr \<times> pystr) list"
  DEFAULT_PROMPT :: pystr

text \<open>The roles are the strings \<open>"user"\<close> and \<open>"model"\<close>, the only ones the code passes.\<close>

datatype role = User | Model

record content =
  role :: role
  parts :: "pystr list"

record generate_content_config =
  temperature :: nat
  thinking_budget :: nat
  include_thoughts :: bool
  media_resolution :: pystr
  system_instruction :: pystr

text \<open>
  The fields of \<open>ChatBot\<close> that change, together with the file system it reads and writes.
\<close>

record chatbot =
  conversation_history :: "content list"
  current_prompt :: pystr
  chat_log_file :: pystr
  config :: generate_content_config
  files :: filesystem

definition make_config :: "pystr \<Rightarrow> generate_content_config" where
  "make_config instruction =
     \<lparr>temperature = 2, thinking_budget = 2000, include_thoughts = True,
      media_resolution = ascii ''MEDIA_RESOLUTION_MEDIUM'',
      system_instruction = instruction\<rparr>"

definition log_file_name :: "pystr \<Rightarrow> pystr" where
  "log_file_name prompt_name = ascii ''chat_'' @ prompt_name @ ascii ''.md''"

definition last_prompt_path :: pystr where
  "last_prompt_path = ascii ''.last_prompt''"

definition user_marker :: pystr where
  "user_marker = [0x2A, 0x2A, 0x1F60A, 0x20, 0x4F60, 0x3A, 0x2A, 0x2A]"

definition ai_marker :: pystr where
  "ai_marker = [0x2A, 0x2A, 0x1F916, 0x20, 0x41, 0x49, 0x3A, 0x2A, 0x2A]"

definition add_message :: "chatbot \<Rightarrow> role \<Rightarrow> pystr \<Rightarrow> chatbot" where
  "add_message s r t =
     s\<lparr>conversation_history := conversation_history s @ [\<lparr>role = r, parts = [t]\<rparr>]\<rparr>"

text \<open>\<open>_load_last_prompt\<close>: every exception inside the \<open>try\<close> ends in the default.\<close>

definition load_last_prompt :: "prompts \<Rightarrow> filesystem \<Rightarrow> pystr" where
  "load_last_prompt P fs =
     (if path_exists fs last_prompt_path then
        (case read_file fs last_prompt_path of
           Inl e \<Rightarrow> DEFAULT_PROMPT P
         | Inr c \<Rightarrow>
             (let last_prompt = strip c in
              if map_of (SYSTEM_PROMPTS P) last_prompt \<noteq> None then last_prompt
              else DEFAULT_PROMPT P))
      else DEFAULT_PROMPT P)"

text \<open>\<open>_save_last_prompt\<close>: a failed write is reported and otherwise ignored.\<close>

definition save_last_prompt :: "chatbot \<Rightarrow> chatbot" where
  "save_last_prompt s = s\<lparr>files := fst (write_file (files s) last_prompt_path (current_prompt s))\<rparr>"

text \<open>The body of the loop of \<open>_load_chat_history\<close>, for one line.\<close>

definition load_line :: "chatbot \<Rightarrow> pystr \<Rightarrow> chatbot" where
  "load_line s line =
     (if startswith line user_marker then
        (let t = strip (replace line user_marker []) in
         if t \<noteq> [] then add_message s User t else s)
      else if startswith line ai_marker then
        (let t = strip (replace line ai_marker []) in
         if t \<noteq> [] then add_message s Model t else s)
      else s)"

definition load_chat_history :: "chatbot \<Rightarrow> chatbot" where
  "load_chat_history s =
     (if path_exists (files s) (chat_log_file s) then
        (case read_file (files s) (chat_log_file s) of
           Inl e \<Rightarrow> s
         | Inr c \<Rightarrow> foldl load_line s (split_nl c))
      else s)"

text \<open>\<open>_save_to_log\<close>, with the reading of the clock as an argument.\<close>

definition role_display :: "role \<Rightarrow> pystr" where
  "role_display r = (if r = User then [0x1F60A, 0x20, 0x4F60] else [0x1F916, 0x20, 0x41, 0x49])"

definition time_prefix :: pystr where
  "time_prefix = [0x2A, 0x65F6, 0x95F4, 0x3A, 0x20]"

definition log_entry :: "role \<Rightarrow> pystr \<Rightarrow> pystr \<Rightarrow> pystr" where
  "log_entry r message timestamp =
     [10] @ ascii ''**'' @ role_display r @ ascii '':** '' @ message @ [10]
     @ time_prefix @ timestamp @ ascii ''*'' @ [10]"

definition save_to_log :: "chatbot \<Rightarrow> datetime \<Rightarrow> role \<Rightarrow> pystr \<Rightarrow> chatbot" where
  "save_to_log s now r message =
     s\<lparr>files := fst (append_file (files s) (chat_log_file s)
                       (log_entry r message (strftime now)))\<rparr>"

definition clear_history :: "chatbot \<Rightarrow> chatbot" where
  "clear_history s = s\<lparr>conversation_history := []\<rparr>"

text \<open>
  \<open>list_prompts\<close> and \<open>switch_prompt\<close> print; what they print is returned as the list of
  the texts of their \<open>print\<close> calls, in order. The warnings that \<open>_save_last_prompt\<close>,
  \<open>_load_chat_history\<close> and \<open>_save_to_log\<close> print when a file operation fails hold the
  text of the exception and are left out, as is the output of the other methods: no state
  and no returned value depends on them.
\<close>

definition list_prompts :: "prompts \<Rightarrow> chatbot \<Rightarrow> pystr list" where
  "list_prompts P s =
     [[0xA, 0x1F4CB, 0x20, 0x53EF, 0x7528, 0x7684, 0x7CFB, 0x7EDF, 0x63D0, 0x793A, 0x8BCD, 0xFF1A]]
     @ map (\<lambda>(key, val).
              ascii ''   '' @ key
              @ (if key = current_prompt s then [0x20, 0x28, 0x5F53, 0x524D, 0x29] else [])
              @ ascii '' - '' @ replace (take 30 val) [10] [32] @ ascii ''...'')
           (SYSTEM_PROMPTS P)
     @ [[]]"

definition switch_prompt :: "prompts \<Rightarrow> chatbot \<Rightarrow> pystr \<Rightarrow> pystr list \<times> chatbot" where
  "switch_prompt P s prompt_name =
     (case map_of (SYSTEM_PROMPTS P) prompt_name of
        Some instruction \<Rightarrow>
          (let s1 = s\<lparr>current_prompt := prompt_name, chat_log_file := log_file_name prompt_name\<rparr>;
               s2 = save_last_prompt s1;
               s3 = s2\<lparr>config := make_config instruction\<rparr>;
               s4 = load_chat_history (s3\<lparr>conversation_history := []\<rparr>);
               history_count = length (conversation_history s4)
           in ([[0xA, 0x2705, 0x20, 0x5DF2, 0x5207, 0x6362, 0x5230, 0x20, 0x27] @ prompt_name
                  @ [0x27, 0x20, 0x63D0, 0x793A, 0x8BCD],
                [0x1F4C1, 0x20, 0x5BF9, 0x8BDD, 0x8BB0, 0x5F55, 0x6587, 0x4EF6, 0x3A, 0x20]
                  @ chat_log_file s4,
                if history_count > 0
                then [0x1F4DA, 0x20, 0x5DF2, 0x52A0, 0x8F7D, 0x20] @ str_nat history_count
                       @ [0x20, 0x6761, 0x5386, 0x53F2, 0x8BB0, 0x5F55, 0xA]
                else [0x1F4DA, 0x20, 0x6682, 0x65E0, 0x5386, 0x53F2, 0x8BB0, 0x5F55, 0xA]],
               s4))
      | None \<Rightarrow>
          ([[0x274C, 0x20, 0x63D0, 0x793A, 0x8BCD, 0x20, 0x27] @ prompt_name
              @ [0x27, 0x20, 0x4E0D, 0x5B58, 0x5728]]
           @ list_prompts P s, s))"

text \<open>
  \<open>__init__\<close>: the last prompt, its log file, the history read from it, the configuration.
  \<open>SYSTEM_PROMPTS[self.current_prompt]\<close> raises \<open>KeyError\<close> when the default prompt is
  no key of the dictionary: the result is \<open>None\<close> then.
\<close>

definition init :: "prompts \<Rightarrow> filesystem \<Rightarrow> chatbot option" where
  "init P fs =
     (let cp = load_last_prompt P fs in
      case map_of (SYSTEM_PROMPTS P) cp of
        None \<Rightarrow> None
      | Some instruction \<Rightarrow>
          Some (load_chat_history
                  \<lparr>conversation_history = [], current_prompt = cp,
                   chat_log_file = log_file_name cp, config = make_config instruction,
                   files = fs\<rparr>))"

section \<open>Asking the model service\<close>

text \<open>
  The \<open>except\<close> branch of \<open>get_response\<close> chooses its message by what the description
  \<open>str(e)\<close> of the exception contains. \<open>classify\<close> is that chain of tests, with the
  branch taken as its value; \<open>error_msg\<close> is the message of the branch.
\<close>

datatype error_kind = AuthError | QuotaExceeded | RateLimited | TransportError

definition classify :: "pystr \<Rightarrow> error_kind" where
  "classify e =
     (if contains (ascii ''API_KEY'') e then AuthError
      else if contains (ascii ''quota'') (lower e) then QuotaExceeded
      else if contains (ascii ''rate'') (lower e) then RateLimited
      else TransportError)"

definition auth_msg :: pystr where
  "auth_msg = [0x274C, 0x20, 0x41, 0x50, 0x49, 0x5BC6, 0x94A5, 0x9519, 0x8BEF, 0xFF0C, 0x8BF7,
     0x68C0, 0x67E5] @ ascii ''GEMINI_API_KEY'' @ [0x73AF, 0x5883, 0x53D8, 0x91CF]"

definition quota_msg :: pystr where
  "quota_msg = [0x274C, 0x20, 0x41, 0x50, 0x49, 0x914D, 0x989D, 0x5DF2, 0x7528, 0x5B8C, 0xFF0C,
     0x8BF7, 0x7A0D, 0x540E, 0x518D, 0x8BD5]"

definition rate_msg :: pystr where
  "rate_msg = [0x274C, 0x20, 0x8BF7, 0x6C42, 0x9891, 0x7387, 0x8FC7, 0x9AD8, 0xFF0C, 0x8BF7,
     0x7A0D, 0x540E, 0x518D, 0x8BD5]"

definition transport_prefix :: pystr where
  "transport_prefix = [0x274C, 0x20, 0x41, 0x50, 0x49, 0x8BF7, 0x6C42, 0x5931, 0x8D25, 0x3A, 0x20]"

definition error_msg :: "pystr \<Rightarrow> pystr" where
  "error_msg e =
     (case classify e of
        AuthError \<Rightarrow> auth_msg
      | QuotaExceeded \<Rightarrow> quota_msg
      | RateLimited \<Rightarrow> rate_msg
      | TransportError \<Rightarrow> transport_prefix @ e)"

text \<open>
  The model service is outside the program. A call streams chunks, each with its \<open>text\<close>
  (\<open>None\<close> or a string), and then either completes or raises an exception with a
  description; an exception raised while a chunk is handled ends the stream the same way.
\<close>

datatype stream_end = Completed | Raised pystr

type_synonym service = "content list \<Rightarrow> generate_content_config \<Rightarrow> pystr option list \<times> stream_end"

definition add_chunk :: "pystr \<Rightarrow> pystr option \<Rightarrow> pystr" where
  "add_chunk response_text chunk =
     (case chunk of None \<Rightarrow> response_text
      | Some t \<Rightarrow> (if t \<noteq> [] then response_text @ t else response_text))"

text \<open>
  \<open>get_response\<close>, with the service and the two readings of the clock as arguments. The
  result is the bot afterwards and the string returned. The loop over the chunks adds the
  text of a chunk to the answer when it is neither \<open>None\<close> nor empty; its inner loop over
  the parts of a chunk only prints.
\<close>

definition get_response :: "service \<Rightarrow> datetime \<Rightarrow> datetime \<Rightarrow> chatbot \<Rightarrow> pystr \<Rightarrow> chatbot \<times> pystr" where
  "get_response client now1 now2 s user_input =
     (let s1 = add_message s User user_input;
          s2 = save_to_log s1 now1 User user_input;
          (chunks, ending) = client (conversation_history s2) (config s2);
          response_text = foldl add_chunk [] chunks
      in case ending of
           Raised e \<Rightarrow> (s2, error_msg e)
         | Completed \<Rightarrow>
             (if response_text \<noteq> []
              then (save_to_log (add_message s2 Model response_text) now2 Model response_text,
                    response_text)
              else (s2, response_text)))"


section \<open>The specification's wording\<close>

text \<open>
  The order of the tests as the specification words it: quota, then rate, then the key.
\<close>

definition spec_classify :: "pystr \<Rightarrow> error_kind" where
  "spec_classify e =
     (if contains (ascii ''quota'') (lower e) then QuotaExceeded
      else if contains (ascii ''rate'') (lower e) then RateLimited
      else if contains (ascii ''API_KEY'') e then AuthError
      else TransportError)"

text \<open>A returned string is an error message when it is one of the four the code builds.\<close>

definition is_error_msg :: "pystr \<Rightarrow> bool" where
  "is_error_msg r =
     (r = auth_msg \<or> r = quota_msg \<or> r = rate_msg \<or> startswith r transport_prefix)"

text \<open>
  What one line of a log contributes, as the specification words it: a line that begins
  with a marker gives a turn whose text is the rest of the line after the marker, trimmed;
  an empty text gives no turn; any other line gives nothing.
\<close>

definition spec_line_turns :: "pystr \<Rightarrow> content list" where
  "spec_line_turns line =
     (if startswith line user_marker then
        (let t = strip (drop (length user_marker) line) in
         if t \<noteq> [] then [\<lparr>role = User, parts = [t]\<rparr>] else [])
      else if startswith line ai_marker then
        (let t = strip (drop (length ai_marker) line) in
         if t \<noteq> [] then [\<lparr>role = Model, parts = [t]\<rparr>] else [])
      else [])"

definition spec_reconcile :: "pystr \<Rightarrow> content list" where
  "spec_reconcile raw = concat (map spec_line_turns (split_nl raw))"

text \<open>
  The same with the amendment: the marker is also taken out of the rest of the line,
  wherever \<open>replace\<close> finds it.
\<close>

definition line_turns :: "pystr \<Rightarrow> content list" where
  "line_turns line =
     (if startswith line user_marker then
        (let t = strip (replace (drop (length user_marker) line) user_marker []) in
         if t \<noteq> [] then [\<lparr>role = User, parts = [t]\<rparr>] else [])
      else if startswith line ai_marker then
        (let t = strip (replace (drop (length ai_marker) line) ai_marker []) in
         if t \<noteq> [] then [\<lparr>role = Model, parts = [t]\<rparr>] else [])
      else [])"

definition reconcile :: "pystr \<Rightarrow> content list" where
  "reconcile raw = concat (map line_turns (split_nl raw))"

text \<open>
  \<open>appendTurn\<close> of the specification is the pair of calls \<open>get_response\<close> makes for a
  turn: \<open>add_message\<close>, then \<open>_save_to_log\<close>.
\<close>

definition append_turn :: "chatbot \<Rightarrow> role \<times> pystr \<times> datetime \<Rightarrow> chatbot" where
  "append_turn s turn =
     (case turn of (r, t, now) \<Rightarrow> save_to_log (add_message s r t) now r t)"

definition marker_of :: "role \<Rightarrow> pystr" where
  "marker_of r = (if r = User then user_marker else ai_marker)"

section \<open>Concrete inputs\<close>

definition example_prompts :: prompts where
  "example_prompts =
     \<lparr>SYSTEM_PROMPTS = [(ascii ''default'', ascii ''Be brief.''), (ascii ''poet'', ascii ''Rhyme.'')],
      DEFAULT_PROMPT = ascii ''default''\<rparr>"

definition example_now :: datetime where
  "example_now = \<lparr>year = 2024, month = 1, day = 2, hour = 3, minute = 4, second = 59\<rparr>"

definition example_bot :: chatbot where
  "example_bot =
     \<lparr>conversation_history = [], current_prompt = ascii ''default'',
      chat_log_file = log_file_name (ascii ''default''),
      config = make_config (ascii ''Be brief.''), files = (\<lambda>p. Absent)\<rparr>"

text \<open>A service whose call raises with a given description, and one that streams given chunks.\<close>

definition failing_service :: "pystr \<Rightarrow> service" where
  "failing_service e h c = ([], Raised e)"

definition answering_service :: "pystr option list \<Rightarrow> service" where
  "answering_service chunks h c = (chunks, Completed)"

text \<open>The bot with a given text in its log file.\<close>

definition with_log :: "chatbot \<Rightarrow> pystr \<Rightarrow> chatbot" where
  "with_log s c = s\<lparr>files := (files s)(chat_log_file s := File c)\<rparr>"

text \<open>The log of the specification's fifth testable property.\<close>

definition spec_example_log :: pystr where
  "spec_example_log =
     user_marker @ ascii '' hello'' @ [10] @ ascii ''*time: 2024-01-01 00:00:00*'' @ [10]
     @ ai_marker @ ascii '' hi there'' @ [10] @ ascii ''*time: 2024-01-01 00:00:01*'' @ [10]"

definition marker_twice_log :: pystr where
  "marker_twice_log = user_marker @ ascii '' a'' @ user_marker @ ascii ''b''"

text \<open>A log with a timestamp line and blank lines only.\<close>

definition times_only_log :: pystr where
  "times_only_log = [10] @ time_prefix @ ascii ''2024-01-01 00:00:00*'' @ [10, 32, 10]"

text \<open>
  A turn text that the log gives back unchanged: not empty, no whitespace at either end,
  no line break, writable as UTF-8, and without the marker of its role in it.
\<close>

definition plain_text :: "role \<Rightarrow> pystr \<Rightarrow> bool" where
  "plain_text r t =
     (t \<noteq> [] \<and> \<not> isspace (hd t) \<and> \<not> isspace (last t) \<and> 10 \<notin> set t \<and> 13 \<notin> set t
      \<and> encodable t \<and> \<not> contains (marker_of r) t)"

definition entry_of :: "role \<times> pystr \<times> datetime \<Rightarrow> pystr" where
  "entry_of turn = (case turn of (r, t, now) \<Rightarrow> log_entry r t (strftime now))"

definition turn_of :: "role \<times> pystr \<times> datetime \<Rightarrow> content" where
  "turn_of turn = (case turn of (r, t, now) \<Rightarrow> \<lparr>role = r, parts = [t]\<rparr>)"

definition plain_turn :: "role \<times> pystr \<times> datetime \<Rightarrow> bool" where
  "plain_turn turn = (case turn of (r, t, now) \<Rightarrow> plain_text r t)"

text \<open>
  Turns for the examples: a reply of two lines, a text with a leading blank, an empty text,
  a text that holds the user marker, a text with a carriage return, a text with a lone
  surrogate, and two plain turns.
\<close>

definition two_line_turn :: "role \<times> pystr \<times> datetime" where
  "two_line_turn = (Model, ascii ''a'' @ [10] @ ascii ''b'', example_now)"

definition padded_turn :: "role \<times> pystr \<times> datetime" where
  "padded_turn = (User, ascii '' a'', example_now)"

definition empty_turn :: "role \<times> pystr \<times> datetime" where
  "empty_turn = (User, [], example_now)"

definition marker_turn :: "role \<times> pystr \<times> datetime" where
  "marker_turn = (User, ascii ''a'' @ user_marker, example_now)"

definition cr_turn :: "role \<times> pystr \<times> datetime" where
  "cr_turn = (User, ascii ''a'' @ [13] @ ascii ''b'', example_now)"

definition surrogate_turn :: "role \<times> pystr \<times> datetime" where
  "surrogate_turn = (User, [0xD800], example_now)"

definition spec_example_turns :: "(role \<times> pystr \<times> datetime) list" where
  "spec_example_turns = [(User, ascii ''hello'', example_now), (Model, ascii ''hi there'', example_now)]"

text \<open>The turns that reading the log file \<open>p\<close> gives.\<close>

definition log_turns :: "filesystem \<Rightarrow> pystr \<Rightarrow> content list" where
  "log_turns fs p = (case fs p of File c \<Rightarrow> reconcile (read_newlines c) | _ \<Rightarrow> [])"

text \<open>The bot after the question \<open>hi\<close> has been answered with the two lines \<open>a\<close> and \<open>b\<close>.\<close>

definition two_line_answer_bot :: chatbot where
  "two_line_answer_bot =
     fst (get_response (answering_service [Some (ascii ''a'' @ [10] @ ascii ''b'')])
            example_now example_now example_bot (ascii ''hi''))"

text \<open>The bot after the question \<open>hello\<close> has been answered with \<open>hi there\<close>.\<close>

definition plain_answer_bot :: chatbot where
  "plain_answer_bot =
     fst (get_response (answering_service [Some (ascii ''hi there'')])
            example_now example_now example_bot (ascii ''hello''))"

text \<open>A file system whose only file is the selection file, holding a given text.\<close>

definition no_files :: filesystem where
  "no_files p = Absent"

definition stored_selection :: "pystr \<Rightarrow> filesystem" where
  "stored_selection c = no_files(last_prompt_path := File c)"

text \<open>
  A line that begins with the user marker and goes on with two asterisks, the user marker
  again and the user marker without its first two asterisks.
\<close>

definition reforming_line :: pystr where
  "reforming_line = user_marker @ ascii ''**'' @ user_marker @ drop 2 user_marker"

section \<open>Facts about the operations\<close>

lemma save_to_log_fields:
  "conversation_history (save_to_log s now r m) = conversation_history s"
  "current_prompt (save_to_log s now r m) = current_prompt s"
  "chat_log_file (save_to_log s now r m) = chat_log_file s"
  "config (save_to_log s now r m) = config s"
  by (simp_all add: save_to_log_def)

lemma add_message_fields:
  "conversation_history (add_message s r t) = conversation_history s @ [\<lparr>role = r, parts = [t]\<rparr>]"
  "current_prompt (add_message s r t) = current_prompt s"
  "chat_log_file (add_message s r t) = chat_log_file s"
  "config (add_message s r t) = config s"
  "files (add_message s r t) = files s"
  by (simp_all add: add_message_def)

lemma get_response_Raised:
  assumes "client (conversation_history s @ [\<lparr>role = User, parts = [u]\<rparr>]) (config s) = (chunks, Raised e)"
  shows "get_response client now1 now2 s u = (save_to_log (add_message s User u) now1 User u, error_msg e)"
  using assms by (simp add: get_response_def Let_def save_to_log_fields add_message_fields)

lemma get_response_Completed:
  assumes "client (conversation_history s @ [\<lparr>role = User, parts = [u]\<rparr>]) (config s) = (chunks, Completed)"
  shows "get_response client now1 now2 s u =
     (let s2 = save_to_log (add_message s User u) now1 User u; t = foldl add_chunk [] chunks in
      if t \<noteq> [] then (save_to_log (add_message s2 Model t) now2 Model t, t) else (s2, t))"
  using assms by (simp add: get_response_def Let_def save_to_log_fields add_message_fields)

lemma is_error_msg_error_msg: "is_error_msg (error_msg e)"
  by (simp add: is_error_msg_def error_msg_def startswith_def split: error_kind.split)

section \<open>Classification of model-service failures\<close>

text \<open>
  C1, as the specification words it, fails: the code tests for \<open>API_KEY\<close> first, so a
  description that holds both \<open>API_KEY\<close> and \<open>quota\<close> gets the message of the
  credential error, where the specification's order gives \<open>QuotaExceeded\<close>.
\<close>

theorem spec_order_counterexample:
  "classify (ascii ''API_KEY quota'') = AuthError
   \<and> spec_classify (ascii ''API_KEY quota'') = QuotaExceeded
   \<and> snd (get_response (failing_service (ascii ''API_KEY quota'')) example_now example_now
            example_bot (ascii ''hi'')) = auth_msg
   \<and> auth_msg \<noteq> quota_msg"
proof -
  have c: "classify (ascii ''API_KEY quota'') = AuthError"
    by (simp add: classify_def ascii_def startswith_def)
  have s: "spec_classify (ascii ''API_KEY quota'') = QuotaExceeded"
    by (simp add: spec_classify_def ascii_def lower_def lower_cp_def startswith_def)
  have "snd (get_response (failing_service (ascii ''API_KEY quota'')) example_now example_now
            example_bot (ascii ''hi'')) = error_msg (ascii ''API_KEY quota'')"
    by (simp add: get_response_Raised failing_service_def)
  with c s show ?thesis
    by (simp add: error_msg_def auth_msg_def quota_msg_def)
qed

text \<open>
  C1, amended: when the model service fails during \<open>get_response\<close> with description
  \<open>e\<close>, the returned message is the credential error if \<open>e\<close> contains \<open>API_KEY\<close>
  (case-sensitively); else the quota message if \<open>e\<close> contains \<open>quota\<close>
  case-insensitively; else the rate message if it contains \<open>rate\<close> case-insensitively;
  otherwise the transport message with \<open>e\<close> appended. This order agrees with the
  specification's exactly when \<open>API_KEY\<close> does not occur together with \<open>quota\<close> or
  \<open>rate\<close>.
\<close>

theorem classification_order:
  assumes "client (conversation_history s @ [\<lparr>role = User, parts = [u]\<rparr>]) (config s) = (chunks, Raised e)"
  shows "snd (get_response client now1 now2 s u) =
           (if contains (ascii ''API_KEY'') e then auth_msg
            else if contains (ascii ''quota'') (lower e) then quota_msg
            else if contains (ascii ''rate'') (lower e) then rate_msg
            else transport_prefix @ e)
         \<and> (classify e = spec_classify e) =
             (\<not> (contains (ascii ''API_KEY'') e
                  \<and> (contains (ascii ''quota'') (lower e) \<or> contains (ascii ''rate'') (lower e))))"
proof -
  have "snd (get_response client now1 now2 s u) = error_msg e"
    using assms by (simp add: get_response_Raised failing_service_def)
  then show ?thesis
    by (simp add: error_msg_def classify_def spec_classify_def)
qed

theorem classification_order_witness:
  "snd (get_response (failing_service (ascii ''Rate limit: QUOTA'')) example_now example_now
      example_bot (ascii ''hi'')) = quota_msg
   \<and> classify (ascii ''Rate limit: QUOTA'') = spec_classify (ascii ''Rate limit: QUOTA'')"
  using classification_order [of "failing_service (ascii ''Rate limit: QUOTA'')" example_bot
      "ascii ''hi''" "[]" "ascii ''Rate limit: QUOTA''" example_now example_now]
  by (simp add: failing_service_def) (simp add: ascii_def lower_def lower_cp_def startswith_def)

text \<open>
  C10: the test for the credential error is case-sensitive. The description
  \<open>invalid api_key\<close> contains \<open>api_key\<close> in lower case and neither \<open>quota\<close> nor
  \<open>rate\<close>; \<open>get_response\<close> answers it with the transport message, not the credential
  message, while the same description with \<open>API_KEY\<close> in capitals is a credential error.
\<close>

theorem auth_test_is_case_sensitive:
  "contains (ascii ''api_key'') (ascii ''invalid api_key'')
   \<and> \<not> contains (ascii ''quota'') (lower (ascii ''invalid api_key''))
   \<and> \<not> contains (ascii ''rate'') (lower (ascii ''invalid api_key''))
   \<and> classify (ascii ''invalid api_key'') = TransportError
   \<and> classify (ascii ''invalid API_KEY'') = AuthError
   \<and> snd (get_response (failing_service (ascii ''invalid api_key'')) now1 now2 s u)
       = transport_prefix @ ascii ''invalid api_key''"
proof -
  have c: "classify (ascii ''invalid api_key'') = TransportError"
    by (simp add: classify_def ascii_def lower_def lower_cp_def startswith_def)
  have "snd (get_response (failing_service (ascii ''invalid api_key'')) now1 now2 s u)
       = error_msg (ascii ''invalid api_key'')"
    by (simp add: get_response_Raised failing_service_def)
  with c show ?thesis
    by (simp add: error_msg_def) (simp add: classify_def ascii_def lower_def lower_cp_def startswith_def)
qed

section \<open>A failed or empty answer\<close>

text \<open>
  C7, as stated, fails in its second case: when the stream completes and the concatenated
  text is empty, \<open>get_response\<close> returns that empty string. No error message is built,
  and the empty string is none of the four messages.
\<close>

theorem empty_answer_counterexample:
  "snd (get_response (answering_service [None, Some []]) example_now example_now example_bot
      (ascii ''hi'')) = []
   \<and> \<not> is_error_msg
        (snd (get_response (answering_service [None, Some []]) example_now example_now example_bot
           (ascii ''hi'')))"
proof -
  have "snd (get_response (answering_service [None, Some []]) example_now example_now example_bot
      (ascii ''hi'')) = []"
    by (simp add: get_response_Completed add_chunk_def answering_service_def)
  moreover have "\<not> is_error_msg []"
    by (simp add: is_error_msg_def auth_msg_def quota_msg_def rate_msg_def transport_prefix_def
        startswith_def)
  ultimately show ?thesis by simp
qed

text \<open>
  C7, amended: for every user input, bot and service, if the call to the model service
  raises, or the stream completes with an empty concatenated text, then the conversation
  history afterwards is the history before followed by the user's turn and nothing else,
  and the active prompt, the log file name and the configuration are as before. When the
  call raised, the value returned is the error message for the exception's description;
  when the text was empty, the value returned is the empty string.
\<close>

theorem failure_keeps_only_user_turn:
  assumes "client (conversation_history s @ [\<lparr>role = User, parts = [u]\<rparr>]) (config s) = (chunks, ending)"
    and "ending = Completed \<Longrightarrow> foldl add_chunk [] chunks = []"
  shows "conversation_history (fst (get_response client now1 now2 s u))
           = conversation_history s @ [\<lparr>role = User, parts = [u]\<rparr>]
         \<and> current_prompt (fst (get_response client now1 now2 s u)) = current_prompt s
         \<and> chat_log_file (fst (get_response client now1 now2 s u)) = chat_log_file s
         \<and> config (fst (get_response client now1 now2 s u)) = config s
         \<and> (case ending of
              Raised e \<Rightarrow> snd (get_response client now1 now2 s u) = error_msg e
                           \<and> is_error_msg (snd (get_response client now1 now2 s u))
            | Completed \<Rightarrow> snd (get_response client now1 now2 s u) = [])"
proof (cases ending)
  case Completed
  with assms show ?thesis
    by (simp add: get_response_Completed save_to_log_fields add_message_fields)
next
  case (Raised e)
  with assms show ?thesis
    by (simp add: get_response_Raised save_to_log_fields add_message_fields is_error_msg_error_msg)
qed

theorem failure_keeps_only_user_turn_witness:
  "conversation_history
     (fst (get_response (failing_service (ascii ''timed out'')) example_now
        example_now example_bot (ascii ''hi'')))
     = [\<lparr>role = User, parts = [ascii ''hi'']\<rparr>]
   \<and> snd (get_response (failing_service (ascii ''timed out'')) example_now
        example_now example_bot (ascii ''hi'')) = transport_prefix @ ascii ''timed out''
   \<and> conversation_history
     (fst (get_response (answering_service [None, Some []]) example_now
        example_now example_bot (ascii ''hi'')))
     = [\<lparr>role = User, parts = [ascii ''hi'']\<rparr>]"
proof -
  have "classify (ascii ''timed out'') = TransportError"
    by (simp add: classify_def ascii_def lower_def lower_cp_def startswith_def)
  then have "conversation_history
     (fst (get_response (failing_service (ascii ''timed out'')) example_now
        example_now example_bot (ascii ''hi'')))
     = [\<lparr>role = User, parts = [ascii ''hi'']\<rparr>]
   \<and> snd (get_response (failing_service (ascii ''timed out'')) example_now
        example_now example_bot (ascii ''hi'')) = transport_prefix @ ascii ''timed out''"
    using failure_keeps_only_user_turn [of "failing_service (ascii ''timed out'')"
      example_bot "ascii ''hi''" "[]" "Raised (ascii ''timed out'')"
      example_now example_now]
    by (simp add: example_bot_def error_msg_def failing_service_def)
  moreover have "conversation_history
     (fst (get_response (answering_service [None, Some []]) example_now
        example_now example_bot (ascii ''hi'')))
     = [\<lparr>role = User, parts = [ascii ''hi'']\<rparr>]"
    using failure_keeps_only_user_turn [of "answering_service [None, Some []]"
      example_bot "ascii ''hi''" "[None, Some []]" Completed example_now example_now]
    by (simp add: example_bot_def answering_service_def add_chunk_def)
  ultimately show ?thesis by blast
qed

section \<open>The persisted selection\<close>

text \<open>
  C8, as stated, fails: the stored string is trimmed before it is looked up. A selection
  file that holds \<open>poet\<close> followed by a line feed holds a string that is no key of
  \<open>SYSTEM_PROMPTS\<close>, and \<open>_load_last_prompt\<close> returns \<open>poet\<close>, not the default.
\<close>

theorem stored_name_is_trimmed_counterexample:
  "load_last_prompt example_prompts (stored_selection (ascii ''poet'' @ [10])) = ascii ''poet''
   \<and> ascii ''poet'' @ [10] \<notin> fst ` set (SYSTEM_PROMPTS example_prompts)
   \<and> ascii ''poet'' \<noteq> DEFAULT_PROMPT example_prompts"
  by (simp add: load_last_prompt_def stored_selection_def no_files_def path_exists_def
      read_file_def example_prompts_def last_prompt_path_def Let_def ascii_def strip_def
      lstrip_def rstrip_def isspace_def)

text \<open>
  C8, amended: \<open>_load_last_prompt\<close> always returns a name and never an exception. When
  the selection file is absent or cannot be read it returns the default prompt; when the
  file can be read it takes the stored text as text mode reads it, with the whitespace at
  both ends trimmed, and returns that if it is a key of \<open>SYSTEM_PROMPTS\<close>, and the
  default prompt otherwise. So the result is always the default or a registered name.
\<close>

theorem load_last_prompt_fails_soft:
  "load_last_prompt P fs =
     (case fs last_prompt_path of
        Absent \<Rightarrow> DEFAULT_PROMPT P
      | Inaccessible \<Rightarrow> DEFAULT_PROMPT P
      | File c \<Rightarrow>
          (if strip (read_newlines c) \<in> fst ` set (SYSTEM_PROMPTS P) then strip (read_newlines c)
           else DEFAULT_PROMPT P))
   \<and> load_last_prompt P fs \<in> insert (DEFAULT_PROMPT P) (fst ` set (SYSTEM_PROMPTS P))"
  by (auto simp add: load_last_prompt_def path_exists_def read_file_def Let_def map_of_eq_None_iff
      split: file_state.splits)

section \<open>Switching the prompt\<close>

lemma list_prompts_length: "length (list_prompts P s) = length (SYSTEM_PROMPTS P) + 2"
  by (simp add: list_prompts_def)

lemma list_prompts_nth:
  assumes "i < length (SYSTEM_PROMPTS P)"
  shows "startswith (list_prompts P s ! Suc i) (ascii ''   '' @ fst (SYSTEM_PROMPTS P ! i))"
  using assms by (simp add: list_prompts_def nth_append startswith_def split_beta)

text \<open>
  C5: for every name that is no key of \<open>SYSTEM_PROMPTS\<close>, \<open>switch_prompt\<close> returns the
  bot as it was: the active prompt, the conversation history, the log file name, the
  configuration and the files (the persisted selection among them) are unchanged. What it
  prints is the rejection followed by the listing of \<open>list_prompts\<close>, which has one line
  for every key of \<open>SYSTEM_PROMPTS\<close>, in declaration order, beginning with that key.
\<close>

theorem switch_to_unknown_is_rejected:
  assumes "prompt_name \<notin> fst ` set (SYSTEM_PROMPTS P)"
  shows "snd (switch_prompt P s prompt_name) = s
         \<and> tl (fst (switch_prompt P s prompt_name)) = list_prompts P s
         \<and> length (list_prompts P s) = length (SYSTEM_PROMPTS P) + 2
         \<and> (\<forall>i < length (SYSTEM_PROMPTS P).
              startswith (list_prompts P s ! Suc i) (ascii ''   '' @ fst (SYSTEM_PROMPTS P ! i)))"
proof -
  from assms have "map_of (SYSTEM_PROMPTS P) prompt_name = None"
    by (simp add: map_of_eq_None_iff)
  then show ?thesis
    by (simp add: switch_prompt_def list_prompts_length list_prompts_nth)
qed

theorem switch_to_unknown_is_rejected_witness:
  "ascii ''pirate'' \<notin> fst ` set (SYSTEM_PROMPTS example_prompts)
   \<and> snd (switch_prompt example_prompts example_bot (ascii ''pirate'')) = example_bot
   \<and> tl (fst (switch_prompt example_prompts example_bot (ascii ''pirate'')))
       = list_prompts example_prompts example_bot
   \<and> startswith (list_prompts example_prompts example_bot ! 1) (ascii ''   default'')
   \<and> startswith (list_prompts example_prompts example_bot ! 2) (ascii ''   poet'')"
proof -
  have sp: "SYSTEM_PROMPTS example_prompts
      = [(ascii ''default'', ascii ''Be brief.''), (ascii ''poet'', ascii ''Rhyme.'')]"
    by (simp add: example_prompts_def)
  have p: "ascii ''pirate'' \<notin> fst ` set (SYSTEM_PROMPTS example_prompts)"
    by (simp add: sp ascii_def)
  note t = switch_to_unknown_is_rejected [OF p, of example_bot]
  from t have a: "snd (switch_prompt example_prompts example_bot (ascii ''pirate'')) = example_bot"
    and b: "tl (fst (switch_prompt example_prompts example_bot (ascii ''pirate'')))
       = list_prompts example_prompts example_bot"
    and c: "\<forall>i < length (SYSTEM_PROMPTS example_prompts).
        startswith (list_prompts example_prompts example_bot ! Suc i)
          (ascii ''   '' @ fst (SYSTEM_PROMPTS example_prompts ! i))"
    by blast+
  from c [rule_format, of 0]
  have d: "startswith (list_prompts example_prompts example_bot ! 1) (ascii ''   default'')"
    by (simp add: sp ascii_def)
  from c [rule_format, of 1]
  have e: "startswith (list_prompts example_prompts example_bot ! 2) (ascii ''   poet'')"
    by (simp add: sp ascii_def numeral_2_eq_2)
  from p a b d e show ?thesis by blast
qed

section \<open>Reading the log\<close>

lemma startswith_iff: "startswith s p \<longleftrightarrow> (\<exists>r. s = p @ r)"
  unfolding startswith_def by (metis append_eq_conv_conj append_take_drop_id)

lemma startswith_drop: "startswith s p \<Longrightarrow> p @ drop (length p) s = s"
  unfolding startswith_def by (metis append_take_drop_id)

lemma ai_not_user: "startswith l ai_marker \<Longrightarrow> \<not> startswith l user_marker"
  by (auto simp add: startswith_iff user_marker_def ai_marker_def)

lemma replace_prefix:
  assumes "old \<noteq> []" and "startswith line old"
  shows "replace line old new = new @ replace (drop (length old) line) old new"
proof (cases line)
  case Nil
  with assms show ?thesis by (simp add: startswith_def)
next
  case (Cons c cs)
  from assms(1) have "drop (length old - 1) cs = drop (length old) (c # cs)"
    by (cases old) simp_all
  with Cons assms show ?thesis by simp
qed

lemma replace_absent:
  assumes "old \<noteq> []" and "\<not> contains old s"
  shows "replace s old new = s"
  using assms by (induction s) auto

lemma load_line_turns:
  "load_line s line = s\<lparr>conversation_history := conversation_history s @ line_turns line\<rparr>"
proof -
  have u: "user_marker \<noteq> []" and a: "ai_marker \<noteq> []"
    by (simp_all add: user_marker_def ai_marker_def)
  show ?thesis
    by (simp add: load_line_def line_turns_def Let_def add_message_def
        replace_prefix [OF u] replace_prefix [OF a])
qed

lemma foldl_load_line:
  "foldl load_line s ls = s\<lparr>conversation_history := conversation_history s @ concat (map line_turns ls)\<rparr>"
  by (induction ls arbitrary: s) (simp_all add: load_line_turns)

lemma load_chat_history_File:
  assumes "files s (chat_log_file s) = File c"
  shows "load_chat_history s = s\<lparr>conversation_history := conversation_history s @ reconcile (read_newlines c)\<rparr>"
  using assms
  by (simp add: load_chat_history_def path_exists_def read_file_def foldl_load_line reconcile_def)

lemma load_chat_history_no_file:
  assumes "files s (chat_log_file s) = Absent \<or> files s (chat_log_file s) = Inaccessible"
  shows "load_chat_history s = s"
  using assms by (auto simp add: load_chat_history_def path_exists_def read_file_def)

lemma line_turns_spec:
  assumes "\<forall>r. startswith line (marker_of r)
             \<longrightarrow> \<not> contains (marker_of r) (drop (length (marker_of r)) line)"
  shows "line_turns line = spec_line_turns line"
proof -
  have u: "user_marker \<noteq> []" and a: "ai_marker \<noteq> []"
    by (simp_all add: user_marker_def ai_marker_def)
  from assms [rule_format, of User] assms [rule_format, of Model] show ?thesis
    by (auto simp add: line_turns_def spec_line_turns_def marker_of_def
        replace_absent [OF u] replace_absent [OF a])
qed

lemma line_turns_other:
  assumes "\<not> startswith line user_marker" and "\<not> startswith line ai_marker"
  shows "line_turns line = []"
  using assms by (simp add: line_turns_def)

lemmas str_eval = ascii_def user_marker_def ai_marker_def startswith_def strip_def lstrip_def
  rstrip_def isspace_def

lemma with_log_fields:
  "conversation_history (with_log s c) = conversation_history s"
  "files (with_log s c) (chat_log_file (with_log s c)) = File c"
  by (simp_all add: with_log_def)

text \<open>
  C3: the code sets out to do what the claim says. It tests that the line begins with the
  marker and then takes the marker away, but it does so with \<open>replace\<close>, which removes
  the marker from the rest of the line as well. For the log whose one line is the user
  marker, \<open> a\<close>, the user marker again and \<open>b\<close>, the code gives a user turn with the
  text \<open>ab\<close>, where the claim gives the rest after the prefix, trimmed: \<open>a\<close>, the
  marker and \<open>b\<close>.
\<close>

theorem marker_in_text_divergence:
  "conversation_history (load_chat_history (with_log example_bot marker_twice_log))
     = [\<lparr>role = User, parts = [ascii ''ab'']\<rparr>]
   \<and> spec_reconcile (read_newlines marker_twice_log)
     = [\<lparr>role = User, parts = [ascii ''a'' @ user_marker @ ascii ''b'']\<rparr>]"
proof -
  have "reconcile (read_newlines marker_twice_log) = [\<lparr>role = User, parts = [ascii ''ab'']\<rparr>]"
    by (simp add: marker_twice_log_def reconcile_def line_turns_def str_eval)
  moreover have "conversation_history example_bot = []"
    by (simp add: example_bot_def)
  ultimately have "conversation_history (load_chat_history (with_log example_bot marker_twice_log))
     = [\<lparr>role = User, parts = [ascii ''ab'']\<rparr>]"
    by (simp add: load_chat_history_File with_log_fields)
  moreover have "spec_reconcile (read_newlines marker_twice_log)
     = [\<lparr>role = User, parts = [ascii ''a'' @ user_marker @ ascii ''b'']\<rparr>]"
    by (simp add: marker_twice_log_def spec_reconcile_def spec_line_turns_def str_eval)
  ultimately show ?thesis by simp
qed

text \<open>
  On every log in which no line that begins with a marker holds that marker a second time,
  the code does what the specification says: the lines are scanned in order, a line that
  begins with a marker gives a turn of that role with the rest of the line, trimmed, as
  its text, unless that text is empty, and every other line gives nothing.
\<close>

lemma load_chat_history_follows_spec:
  assumes "files s (chat_log_file s) = File c"
    and "\<forall>line \<in> set (split_nl (read_newlines c)). \<forall>r. startswith line (marker_of r)
           \<longrightarrow> \<not> contains (marker_of r) (drop (length (marker_of r)) line)"
  shows "load_chat_history s
           = s\<lparr>conversation_history := conversation_history s @ spec_reconcile (read_newlines c)\<rparr>"
proof -
  from assms(2) have "map line_turns (split_nl (read_newlines c))
      = map spec_line_turns (split_nl (read_newlines c))"
    by (simp add: line_turns_spec)
  then have "reconcile (read_newlines c) = spec_reconcile (read_newlines c)"
    by (simp only: reconcile_def spec_reconcile_def)
  with assms(1) show ?thesis
    by (simp only: load_chat_history_File)
qed

lemma spec_example_log_turns:
  "conversation_history (load_chat_history (with_log example_bot spec_example_log))
     = [\<lparr>role = User, parts = [ascii ''hello'']\<rparr>, \<lparr>role = Model, parts = [ascii ''hi there'']\<rparr>]"
proof -
  have "reconcile (read_newlines spec_example_log)
      = [\<lparr>role = User, parts = [ascii ''hello'']\<rparr>, \<lparr>role = Model, parts = [ascii ''hi there'']\<rparr>]"
    by (simp add: reconcile_def spec_example_log_def line_turns_def str_eval)
  moreover have "conversation_history example_bot = []"
    by (simp add: example_bot_def)
  ultimately show ?thesis
    by (simp add: load_chat_history_File with_log_fields)
qed

lemma strip_empty_iff: "strip l = [] \<longleftrightarrow> (\<forall>c \<in> set l. isspace c)"
proof
  assume e: "strip l = []"
  then have a: "\<forall>c \<in> set (rstrip l). isspace c"
    by (simp add: strip_def lstrip_def dropWhile_eq_Nil_conv)
  have "dropWhile isspace (rev l) = []"
  proof (rule ccontr)
    assume n: "dropWhile isspace (rev l) \<noteq> []"
    then have "\<not> isspace (hd (dropWhile isspace (rev l)))"
      by (rule hd_dropWhile)
    moreover from n have "hd (dropWhile isspace (rev l)) \<in> set (rstrip l)"
      by (simp add: rstrip_def)
    ultimately show False using a by blast
  qed
  then show "\<forall>c \<in> set l. isspace c"
    by (simp add: dropWhile_eq_Nil_conv)
next
  assume "\<forall>c \<in> set l. isspace c"
  then show "strip l = []"
    by (auto simp add: strip_def lstrip_def rstrip_def dest: set_dropWhileD)
qed

lemma blank_line_no_marker:
  assumes "strip l = []"
  shows "\<not> startswith l user_marker \<and> \<not> startswith l ai_marker"
proof -
  from assms have "\<forall>c \<in> set l. isspace c" by (simp add: strip_empty_iff)
  moreover have "\<not> isspace 42" by (simp add: isspace_def)
  ultimately have "42 \<notin> set l" by blast
  then show ?thesis
    by (auto simp add: startswith_iff user_marker_def ai_marker_def)
qed

lemma time_line_no_marker:
  assumes "startswith l time_prefix"
  shows "\<not> startswith l user_marker \<and> \<not> startswith l ai_marker"
  using assms by (auto simp add: startswith_iff time_prefix_def user_marker_def ai_marker_def)

lemma concat_line_turns_Nil:
  assumes "\<forall>l \<in> set ls. strip l = [] \<or> startswith l time_prefix"
  shows "concat (map line_turns ls) = []"
  using assms
  by (auto simp add: line_turns_other blank_line_no_marker time_line_no_marker)

text \<open>
  C4: when the log file does not exist, or is empty, \<open>_load_chat_history\<close> adds no turn:
  it returns the bot as it was, so a history that was empty stays empty. The same holds
  for a log all of whose lines are blank or timestamp lines. A line that begins with a
  marker and whose text is empty once the marker is removed and the rest trimmed adds no
  turn either.
\<close>

theorem logs_without_turns:
  "(files s (chat_log_file s) = Absent \<longrightarrow> load_chat_history s = s)
   \<and> (files s (chat_log_file s) = File [] \<longrightarrow> load_chat_history s = s)
   \<and> (files s (chat_log_file s) = File c
        \<and> (\<forall>l \<in> set (split_nl (read_newlines c)). strip l = [] \<or> startswith l time_prefix)
        \<longrightarrow> load_chat_history s = s)
   \<and> (startswith line (marker_of r) \<and> strip (replace line (marker_of r) []) = []
        \<longrightarrow> load_line s line = s)"
proof -
  have a: "files s (chat_log_file s) = Absent \<longrightarrow> load_chat_history s = s"
    by (simp add: load_chat_history_no_file)
  have b: "files s (chat_log_file s) = File [] \<longrightarrow> load_chat_history s = s"
    by (simp add: load_chat_history_File reconcile_def line_turns_def startswith_def
        user_marker_def ai_marker_def)
  have c: "files s (chat_log_file s) = File c
        \<and> (\<forall>l \<in> set (split_nl (read_newlines c)). strip l = [] \<or> startswith l time_prefix)
        \<longrightarrow> load_chat_history s = s"
    by (simp add: load_chat_history_File reconcile_def concat_line_turns_Nil)
  have d: "startswith line (marker_of r) \<and> strip (replace line (marker_of r) []) = []
        \<longrightarrow> load_line s line = s"
    by (cases r) (auto simp add: marker_of_def load_line_def ai_not_user)
  from a b c d show ?thesis by blast
qed

theorem logs_without_turns_witness:
  "load_chat_history example_bot = example_bot
   \<and> load_chat_history (with_log example_bot []) = with_log example_bot []
   \<and> load_chat_history (with_log example_bot times_only_log) = with_log example_bot times_only_log
   \<and> load_line example_bot (ai_marker @ ascii ''  '') = example_bot"
proof -
  have a: "files example_bot (chat_log_file example_bot) = Absent"
    by (simp add: example_bot_def)
  have c: "\<forall>l \<in> set (split_nl (read_newlines times_only_log)). strip l = [] \<or> startswith l time_prefix"
    by (simp add: times_only_log_def time_prefix_def str_eval)
  have d: "startswith (ai_marker @ ascii ''  '') (marker_of Model)
      \<and> strip (replace (ai_marker @ ascii ''  '') (marker_of Model) []) = []"
    by (simp add: marker_of_def str_eval)
  from logs_without_turns [of example_bot "[]" "ai_marker @ ascii ''  ''" Model] a
  have 1: "load_chat_history example_bot = example_bot" by blast
  from logs_without_turns [of "with_log example_bot []" "[]" "ai_marker @ ascii ''  ''" Model]
  have 2: "load_chat_history (with_log example_bot []) = with_log example_bot []"
    by (simp add: with_log_fields)
  from logs_without_turns [of "with_log example_bot times_only_log" times_only_log
      "ai_marker @ ascii ''  ''" Model] c
  have 3: "load_chat_history (with_log example_bot times_only_log) = with_log example_bot times_only_log"
    by (simp add: with_log_fields)
  from logs_without_turns [of example_bot "[]" "ai_marker @ ascii ''  ''" Model] d
  have 4: "load_line example_bot (ai_marker @ ascii ''  '') = example_bot" by blast
  from 1 2 3 4 show ?thesis by blast
qed

lemma replace_first_occurrence:
  assumes "old \<noteq> []" and "\<forall>i < length a. \<not> startswith (drop i (a @ old @ b)) old"
  shows "replace (a @ old @ b) old new = a @ new @ replace b old new"
  using assms
proof (induction a)
  case Nil
  have "startswith (old @ b) old" by (simp add: startswith_def)
  with Nil show ?case
    using replace_prefix [of old "old @ b" new] by simp
next
  case (Cons c a)
  from Cons.prems(2) have 0: "\<not> startswith (c # a @ old @ b) old"
    by (auto dest: spec [of _ 0])
  have "\<forall>i < length a. \<not> startswith (drop i (a @ old @ b)) old"
  proof (intro allI impI)
    fix i assume "i < length a"
    with Cons.prems(2) have "\<not> startswith (drop (Suc i) ((c # a) @ old @ b)) old"
      by (auto dest: spec [of _ "Suc i"])
    then show "\<not> startswith (drop i (a @ old @ b)) old" by simp
  qed
  with Cons.IH Cons.prems(1) have "replace (a @ old @ b) old new = a @ new @ replace b old new"
    by simp
  with 0 Cons.prems(1) show ?case by simp
qed

lemma line_turns_marker:
  assumes "startswith line (marker_of r)"
  shows "line_turns line =
     (if strip (replace (drop (length (marker_of r)) line) (marker_of r) []) \<noteq> []
      then [\<lparr>role = r, parts = [strip (replace (drop (length (marker_of r)) line) (marker_of r) [])]\<rparr>]
      else [])"
  using assms ai_not_user [of line]
  by (cases r) (auto simp add: line_turns_def marker_of_def Let_def)

text \<open>
  C9, as stated, fails: the extracted text can still hold the marker. \<open>replace\<close> removes
  the occurrences it finds from the left, without overlap, and what is left of the line
  can form the marker anew. For the line that begins with the user marker and goes on
  with two asterisks, the user marker and the user marker without its first two
  asterisks, the text of the turn is the user marker itself.
\<close>

theorem leftover_marker_counterexample:
  "startswith reforming_line user_marker
   \<and> conversation_history (load_line example_bot reforming_line)
       = [\<lparr>role = User, parts = [user_marker]\<rparr>]
   \<and> contains user_marker user_marker"
proof -
  have "line_turns reforming_line = [\<lparr>role = User, parts = [user_marker]\<rparr>]"
    by (simp add: reforming_line_def line_turns_def str_eval)
  moreover have "conversation_history example_bot = []"
    by (simp add: example_bot_def)
  moreover have "startswith reforming_line user_marker" "contains user_marker user_marker"
    by (simp_all add: reforming_line_def str_eval)
  ultimately show ?thesis by (simp add: load_line_turns)
qed

text \<open>
  C9, amended: for a line that begins with a role marker, the loop leaves every field of
  the bot as it was except the history, to which it adds one turn of that role, unless
  the text is empty. The text is the rest of the line after the prefix with the marker
  removed by \<open>replace\<close>, then trimmed: where the marker next occurs in a string,
  \<open>replace\<close> keeps what stands before it, drops it, and goes on behind it, and a string
  without the marker is kept as it is. So not only the leading prefix is removed, and for
  the line made of the user marker, \<open> a\<close>, the user marker again and \<open>b\<close> the turn
  produced has the text \<open>ab\<close>, which is not the rest of the line after the prefix,
  trimmed.
\<close>

theorem marker_removed_by_replace:
  "(startswith line (marker_of r) \<longrightarrow>
      load_line s line
        = s\<lparr>conversation_history := conversation_history s @
             (if strip (replace (drop (length (marker_of r)) line) (marker_of r) []) \<noteq> []
              then [\<lparr>role = r,
                     parts = [strip (replace (drop (length (marker_of r)) line) (marker_of r) [])]\<rparr>]
              else [])\<rparr>)
   \<and> ((\<forall>i < length a. \<not> startswith (drop i (a @ marker_of r @ b)) (marker_of r)) \<longrightarrow>
        replace (a @ marker_of r @ b) (marker_of r) [] = a @ replace b (marker_of r) [])
   \<and> (\<not> contains (marker_of r) x \<longrightarrow> replace x (marker_of r) [] = x)
   \<and> conversation_history (load_line s marker_twice_log)
       = conversation_history s @ [\<lparr>role = User, parts = [ascii ''ab'']\<rparr>]
   \<and> strip (drop (length user_marker) marker_twice_log) = ascii ''a'' @ user_marker @ ascii ''b''
   \<and> ascii ''ab'' \<noteq> ascii ''a'' @ user_marker @ ascii ''b''"
proof -
  have m: "marker_of r \<noteq> []"
    by (simp add: marker_of_def user_marker_def ai_marker_def)
  have 1: "startswith line (marker_of r) \<longrightarrow>
      load_line s line
        = s\<lparr>conversation_history := conversation_history s @
             (if strip (replace (drop (length (marker_of r)) line) (marker_of r) []) \<noteq> []
              then [\<lparr>role = r,
                     parts = [strip (replace (drop (length (marker_of r)) line) (marker_of r) [])]\<rparr>]
              else [])\<rparr>"
    by (simp add: load_line_turns line_turns_marker)
  have 2: "(\<forall>i < length a. \<not> startswith (drop i (a @ marker_of r @ b)) (marker_of r)) \<longrightarrow>
        replace (a @ marker_of r @ b) (marker_of r) [] = a @ replace b (marker_of r) []"
    using replace_first_occurrence [OF m, of a b "[]"] by simp
  have 3: "\<not> contains (marker_of r) x \<longrightarrow> replace x (marker_of r) [] = x"
    by (simp add: replace_absent [OF m])
  have "line_turns marker_twice_log = [\<lparr>role = User, parts = [ascii ''ab'']\<rparr>]"
    by (simp add: marker_twice_log_def line_turns_def str_eval)
  then have 4: "conversation_history (load_line s marker_twice_log)
       = conversation_history s @ [\<lparr>role = User, parts = [ascii ''ab'']\<rparr>]"
    by (simp add: load_line_turns)
  have 5: "strip (drop (length user_marker) marker_twice_log) = ascii ''a'' @ user_marker @ ascii ''b''"
    by (simp add: marker_twice_log_def str_eval)
  have 6: "ascii ''ab'' \<noteq> ascii ''a'' @ user_marker @ ascii ''b''"
    by (simp add: str_eval)
  from 1 2 3 4 5 6 show ?thesis by blast
qed

theorem marker_removed_by_replace_witness:
  "conversation_history (load_line example_bot (ai_marker @ ascii '' see '' @ ai_marker @ ascii '' there''))
     = [\<lparr>role = Model, parts = [ascii ''see  there'']\<rparr>]
   \<and> replace (ascii '' see '' @ ai_marker @ ascii '' there'') ai_marker []
     = ascii '' see '' @ replace (ascii '' there'') ai_marker []
   \<and> replace (ascii '' there'') ai_marker [] = ascii '' there''"
proof -
  let ?line = "ai_marker @ ascii '' see '' @ ai_marker @ ascii '' there''"
  note t = marker_removed_by_replace [where r = Model and line = ?line and s = example_bot
      and a = "ascii '' see ''" and b = "ascii '' there''" and x = "ascii '' there''"]
  have m: "marker_of Model = ai_marker" by (simp add: marker_of_def)
  have h1: "startswith ?line (marker_of Model)"
    by (simp add: m startswith_def)
  have h2: "\<forall>i < length (ascii '' see ''). \<not> startswith
      (drop i (ascii '' see '' @ marker_of Model @ ascii '' there'')) (marker_of Model)"
    by (simp add: m str_eval All_less_Suc)
  have h3: "\<not> contains (marker_of Model) (ascii '' there'')"
    by (simp add: m str_eval)
  from t h1 have a: "load_line example_bot ?line
        = example_bot\<lparr>conversation_history := conversation_history example_bot @
             (if strip (replace (drop (length (marker_of Model)) ?line) (marker_of Model) []) \<noteq> []
              then [\<lparr>role = Model,
                     parts = [strip (replace (drop (length (marker_of Model)) ?line) (marker_of Model) [])]\<rparr>]
              else [])\<rparr>"
    by blast
  from t h2 have b: "replace (ascii '' see '' @ marker_of Model @ ascii '' there'') (marker_of Model) []
      = ascii '' see '' @ replace (ascii '' there'') (marker_of Model) []"
    by blast
  from t h3 have c: "replace (ascii '' there'') (marker_of Model) [] = ascii '' there''"
    by blast
  have d: "strip (ascii '' see '' @ ascii '' there'') = ascii ''see  there''"
    and e: "ascii ''see  there'' \<noteq> []"
    and f: "conversation_history example_bot = []"
    by (simp_all add: str_eval example_bot_def)
  from a b c d e f show ?thesis
    by (simp add: m)
qed

section \<open>Appending turns and reading them back\<close>

declare str_nat.simps [simp del]

lemma str_nat_digits: "c \<in> set (str_nat n) \<Longrightarrow> 48 \<le> c \<and> c \<le> 57"
proof (induction n arbitrary: c rule: str_nat.induct)
  case (1 n)
  show ?case
  proof (cases "n < 10")
    case True
    with "1.prems" show ?thesis by (simp add: str_nat.simps [of n])
  next
    case False
    have "n mod 10 < 10" by simp
    with False "1.prems" "1.IH" show ?thesis
      by (auto simp add: str_nat.simps [of n])
  qed
qed

lemma zpad_digits: "c \<in> set (zpad w n) \<Longrightarrow> 48 \<le> c \<and> c \<le> 57"
  by (auto simp add: zpad_def dest: str_nat_digits)

lemma strftime_chars:
  assumes "c \<in> set (strftime dt)"
  shows "32 \<le> c \<and> c \<le> 58"
  using assms
  by (auto simp add: strftime_def ascii_def dest!: zpad_digits)

lemma encodable_append: "encodable (a @ b) \<longleftrightarrow> encodable a \<and> encodable b"
  by (simp add: encodable_def)

lemma encodable_chars: "(\<And>c. c \<in> set a \<Longrightarrow> c < 0xD800) \<Longrightarrow> encodable a"
  by (auto simp add: encodable_def list_all_iff)

lemma encodable_strftime: "encodable (strftime dt)"
  by (rule encodable_chars) (use strftime_chars in fastforce)

lemma encodable_log_entry: "encodable t \<Longrightarrow> encodable (log_entry r t (strftime now))"
  using encodable_strftime [of now]
  by (simp add: log_entry_def encodable_def ascii_def role_display_def time_prefix_def)

lemma log_entry_lines:
  "log_entry r t ts = 10 # (marker_of r @ 32 # t) @ 10 # (time_prefix @ ts @ [42]) @ [10]"
  by (simp add: log_entry_def marker_of_def role_display_def user_marker_def ai_marker_def ascii_def)

lemma read_newlines_id: "13 \<notin> set c \<Longrightarrow> read_newlines c = c"
  by (induction c rule: read_newlines.induct) auto

lemma split_nl_line: "10 \<notin> set a \<Longrightarrow> split_nl (a @ 10 # b) = a # split_nl b"
  by (induction a) auto

lemma strip_after_space:
  assumes "t \<noteq> []" and "\<not> isspace (hd t)" and "\<not> isspace (last t)"
  shows "strip (32 # t) = t"
proof -
  from assms have "dropWhile isspace (rev t @ [32]) = rev t @ [32]"
    by (cases "rev t") (auto simp add: last_rev hd_rev)
  then have "rstrip (32 # t) = 32 # t"
    by (simp add: rstrip_def)
  moreover have "isspace 32" by (simp add: isspace_def)
  moreover from assms have "dropWhile isspace t = t"
    by (cases t) auto
  ultimately show ?thesis by (simp add: strip_def lstrip_def)
qed

lemma line_turns_message:
  assumes "t \<noteq> []" and "\<not> isspace (hd t)" and "\<not> isspace (last t)"
    and "\<not> contains (marker_of r) t"
  shows "line_turns (marker_of r @ 32 # t) = [\<lparr>role = r, parts = [t]\<rparr>]"
proof -
  have m: "marker_of r \<noteq> []" and h: "hd (marker_of r) \<noteq> 32"
    by (simp_all add: marker_of_def user_marker_def ai_marker_def)
  have s: "startswith (marker_of r @ 32 # t) (marker_of r)" by (simp add: startswith_def)
  from m h have "\<not> startswith (32 # t) (marker_of r)"
    by (cases "marker_of r") (auto simp add: startswith_def)
  with m assms(4) have "replace (32 # t) (marker_of r) [] = 32 # t"
    by (simp add: replace_absent)
  with assms have e: "strip (replace (32 # t) (marker_of r) []) = t"
    by (simp add: strip_after_space)
  show ?thesis
  proof (cases r)
    case User
    with s e assms(1) show ?thesis by (simp add: line_turns_def marker_of_def)
  next
    case Model
    with s e assms(1) ai_not_user [of "ai_marker @ 32 # t"] show ?thesis
      by (simp add: line_turns_def marker_of_def)
  qed
qed

lemma line_turns_time: "line_turns (time_prefix @ x) = []"
proof -
  have "startswith (time_prefix @ x) time_prefix" by (simp add: startswith_def)
  then show ?thesis by (simp add: line_turns_other time_line_no_marker)
qed

lemma line_turns_Nil: "line_turns [] = []"
  by (simp add: line_turns_def startswith_def user_marker_def ai_marker_def)

lemma reconcile_entry:
  assumes "plain_text r t"
  shows "reconcile (log_entry r t (strftime now) @ rest) = \<lparr>role = r, parts = [t]\<rparr> # reconcile rest"
proof -
  let ?l1 = "marker_of r @ 32 # t" and ?l2 = "time_prefix @ strftime now @ [42]"
  from assms have 1: "10 \<notin> set ?l1"
    by (auto simp add: plain_text_def marker_of_def user_marker_def ai_marker_def)
  have 2: "10 \<notin> set ?l2"
    using strftime_chars [of 10 now] by (auto simp add: time_prefix_def)
  have "log_entry r t (strftime now) @ rest = 10 # ?l1 @ 10 # ?l2 @ 10 # rest"
    by (simp add: log_entry_lines)
  then have "split_nl (log_entry r t (strftime now) @ rest) = [] # ?l1 # ?l2 # split_nl rest"
    using split_nl_line [OF 1, of "?l2 @ 10 # rest"] split_nl_line [OF 2, of rest] by simp
  moreover from assms have "line_turns ?l1 = [\<lparr>role = r, parts = [t]\<rparr>]"
    by (simp add: plain_text_def line_turns_message)
  moreover have "line_turns ?l2 = []"
    using line_turns_time [of "strftime now @ [42]"] by simp
  ultimately show ?thesis
    by (simp add: reconcile_def line_turns_Nil)
qed

lemma reconcile_entries:
  assumes "\<forall>turn \<in> set turns. plain_turn turn"
  shows "reconcile (concat (map entry_of turns)) = map turn_of turns"
  using assms
proof (induction turns)
  case Nil
  then show ?case by (simp add: reconcile_def line_turns_Nil)
next
  case (Cons turn turns)
  obtain r t now where turn: "turn = (r, t, now)" by (cases turn)
  with Cons.prems have "plain_text r t" by (simp add: plain_turn_def)
  with Cons turn show ?case
    by (simp add: entry_of_def turn_of_def reconcile_entry)
qed

lemma entry_no_cr:
  assumes "plain_turn turn"
  shows "13 \<notin> set (entry_of turn)"
proof -
  obtain r t now where turn: "turn = (r, t, now)" by (cases turn)
  with assms have "13 \<notin> set t" by (simp add: plain_turn_def plain_text_def)
  with turn strftime_chars [of 13 now] show ?thesis
    by (auto simp add: entry_of_def log_entry_lines marker_of_def user_marker_def ai_marker_def
        time_prefix_def)
qed

lemma append_turn_fields:
  "conversation_history (append_turn s turn) = conversation_history s @ [turn_of turn]"
  "chat_log_file (append_turn s turn) = chat_log_file s"
  "current_prompt (append_turn s turn) = current_prompt s"
  "config (append_turn s turn) = config s"
  by (simp_all add: append_turn_def turn_of_def save_to_log_fields add_message_fields split: prod.split)

lemma append_turn_file:
  assumes "encodable (fst (snd turn))"
  shows "files (append_turn s turn) (chat_log_file s) =
     (case files s (chat_log_file s) of
        Absent \<Rightarrow> File (entry_of turn)
      | Inaccessible \<Rightarrow> Inaccessible
      | File c \<Rightarrow> File (c @ entry_of turn))"
proof -
  obtain r t now where turn: "turn = (r, t, now)" by (cases turn)
  with assms have "encodable (log_entry r t (strftime now))"
    by (simp add: encodable_log_entry)
  with turn show ?thesis
    by (simp add: append_turn_def save_to_log_def append_file_def add_message_fields entry_of_def
        split: file_state.split)
qed

lemma foldl_append_turn_fields:
  "conversation_history (foldl append_turn s turns) = conversation_history s @ map turn_of turns"
  "chat_log_file (foldl append_turn s turns) = chat_log_file s"
  by (induction turns arbitrary: s) (simp_all add: append_turn_fields)

lemma foldl_append_turn_file:
  assumes "\<forall>turn \<in> set turns. plain_turn turn" and "files s (chat_log_file s) = File c"
  shows "files (foldl append_turn s turns) (chat_log_file s) = File (c @ concat (map entry_of turns))"
  using assms
proof (induction turns arbitrary: s c)
  case Nil
  then show ?case by simp
next
  case (Cons turn turns)
  from Cons.prems have "encodable (fst (snd turn))"
    by (cases turn) (simp add: plain_turn_def plain_text_def)
  with Cons.prems have "files (append_turn s turn) (chat_log_file (append_turn s turn)) = File (c @ entry_of turn)"
    by (simp add: append_turn_file append_turn_fields)
  with Cons.prems Cons.IH [of "append_turn s turn" "c @ entry_of turn"] show ?case
    by (simp add: append_turn_fields)
qed

lemma foldl_append_turn_new_file:
  assumes "\<forall>turn \<in> set turns. plain_turn turn" and "turns \<noteq> []"
    and "files s (chat_log_file s) = Absent \<or> files s (chat_log_file s) = File []"
  shows "files (foldl append_turn s turns) (chat_log_file s) = File (concat (map entry_of turns))"
proof -
  from assms(2) obtain turn rest where turns: "turns = turn # rest" by (cases turns) auto
  with assms(1) have "encodable (fst (snd turn))"
    by (cases turn) (simp add: plain_turn_def plain_text_def)
  with assms have "files (append_turn s turn) (chat_log_file (append_turn s turn)) = File (entry_of turn)"
    by (auto simp add: append_turn_file append_turn_fields)
  with assms(1) turns foldl_append_turn_file [of rest "append_turn s turn" "entry_of turn"]
  show ?thesis by (simp add: append_turn_fields)
qed

lemma split_nl_not_Nil: "split_nl a \<noteq> []"
  by (induction a) (auto split: list.split)

lemma split_nl_append: "split_nl (a @ 10 # b) = split_nl a @ split_nl b"
proof (induction a)
  case Nil
  then show ?case by simp
next
  case (Cons c a)
  then show ?case
    using split_nl_not_Nil [of a] by (cases "split_nl a") auto
qed

lemma reconcile_single_entry:
  "reconcile (log_entry r t (strftime now)) = reconcile (marker_of r @ 32 # t)"
proof -
  let ?l2 = "time_prefix @ strftime now @ [42]"
  have 2: "10 \<notin> set ?l2"
    using strftime_chars [of 10 now] by (auto simp add: time_prefix_def)
  have "log_entry r t (strftime now) = [] @ 10 # ((marker_of r @ 32 # t) @ 10 # (?l2 @ 10 # []))"
    by (simp add: log_entry_lines)
  then have "split_nl (log_entry r t (strftime now))
      = [] # split_nl (marker_of r @ 32 # t) @ [?l2, []]"
    using split_nl_line [OF 2, of "[]"]
    by (simp only: split_nl_append) simp
  moreover have "line_turns ?l2 = []"
    using line_turns_time [of "strftime now @ [42]"] by simp
  ultimately show ?thesis
    by (simp add: reconcile_def line_turns_Nil)
qed

lemma one_turn_read_back:
  assumes "files s (chat_log_file s) = Absent" and "encodable t" and "13 \<notin> set t"
  shows "conversation_history
           (load_chat_history ((foldl append_turn s [(r, t, now)])\<lparr>conversation_history := []\<rparr>))
         = reconcile (marker_of r @ 32 # t)"
proof -
  from assms(2) have "encodable (log_entry r t (strftime now))"
    by (rule encodable_log_entry)
  with assms(1) have f: "files (append_turn s (r, t, now)) (chat_log_file s)
      = File (log_entry r t (strftime now))"
    by (simp add: append_turn_def save_to_log_def append_file_def add_message_fields)
  from assms(3) strftime_chars [of 13 now] have "13 \<notin> set (log_entry r t (strftime now))"
    by (auto simp add: log_entry_lines marker_of_def user_marker_def ai_marker_def time_prefix_def)
  then have "read_newlines (log_entry r t (strftime now)) = log_entry r t (strftime now)"
    by (rule read_newlines_id)
  with f show ?thesis
    by (simp add: load_chat_history_File append_turn_fields reconcile_single_entry)
qed

lemma strftime_example: "strftime example_now = ascii ''2024-01-02 03:04:59''"
  by (simp add: strftime_def example_now_def zpad_def str_nat.simps ascii_def)

lemma encodable_log_entry_iff: "encodable (log_entry r t (strftime now)) = encodable t"
  using encodable_strftime [of now]
  by (simp add: log_entry_def encodable_def ascii_def role_display_def time_prefix_def)

lemma one_turn_not_written:
  assumes "files s (chat_log_file s) = Absent" and "\<not> encodable t"
  shows "conversation_history
           (load_chat_history ((foldl append_turn s [(r, t, now)])\<lparr>conversation_history := []\<rparr>))
         = []"
proof -
  from assms have "files (append_turn s (r, t, now)) (chat_log_file s) = File []"
    by (simp add: append_turn_def save_to_log_def append_file_def add_message_fields
        encodable_log_entry_iff)
  then show ?thesis
    by (simp add: load_chat_history_File append_turn_fields reconcile_def line_turns_Nil)
qed

lemma one_turn_file:
  assumes "files s (chat_log_file s) = Absent" and "encodable t"
  shows "conversation_history
           (load_chat_history ((foldl append_turn s [(r, t, now)])\<lparr>conversation_history := []\<rparr>))
         = reconcile (read_newlines (log_entry r t (strftime now)))"
proof -
  from assms have "files (append_turn s (r, t, now)) (chat_log_file s)
      = File (log_entry r t (strftime now))"
    by (simp add: append_turn_def save_to_log_def append_file_def add_message_fields
        encodable_log_entry_iff)
  then show ?thesis
    by (simp add: load_chat_history_File append_turn_fields)
qed

text \<open>
  C2, as stated, fails: reading the log back does not give every text as it was appended.
  A model turn with the two lines \<open>a\<close> and \<open>b\<close> comes back with the text \<open>a\<close>, and
  so does a user turn whose text has a carriage return between \<open>a\<close> and \<open>b\<close>; a user
  turn \<open> a\<close> with a leading blank comes back as \<open>a\<close>; a user turn whose text is \<open>a\<close>
  followed by the user marker comes back as \<open>a\<close>; a turn with an empty text, and a turn
  whose text cannot be written as UTF-8, do not come back at all.
\<close>

theorem round_trip_counterexample:
  "conversation_history
     (load_chat_history ((foldl append_turn example_bot [two_line_turn])\<lparr>conversation_history := []\<rparr>))
     = [\<lparr>role = Model, parts = [ascii ''a'']\<rparr>]
   \<and> map turn_of [two_line_turn] = [\<lparr>role = Model, parts = [ascii ''a'' @ [10] @ ascii ''b'']\<rparr>]
   \<and> conversation_history
     (load_chat_history ((foldl append_turn example_bot [padded_turn])\<lparr>conversation_history := []\<rparr>))
     = [\<lparr>role = User, parts = [ascii ''a'']\<rparr>]
   \<and> map turn_of [padded_turn] = [\<lparr>role = User, parts = [ascii '' a'']\<rparr>]
   \<and> conversation_history
     (load_chat_history ((foldl append_turn example_bot [cr_turn])\<lparr>conversation_history := []\<rparr>))
     = [\<lparr>role = User, parts = [ascii ''a'']\<rparr>]
   \<and> conversation_history
     (load_chat_history ((foldl append_turn example_bot [marker_turn])\<lparr>conversation_history := []\<rparr>))
     = [\<lparr>role = User, parts = [ascii ''a'']\<rparr>]
   \<and> conversation_history
     (load_chat_history ((foldl append_turn example_bot [empty_turn])\<lparr>conversation_history := []\<rparr>))
     = []
   \<and> conversation_history
     (load_chat_history ((foldl append_turn example_bot [surrogate_turn])\<lparr>conversation_history := []\<rparr>))
     = []"
proof -
  have a: "files example_bot (chat_log_file example_bot) = Absent"
    by (simp add: example_bot_def)
  have "conversation_history
     (load_chat_history ((foldl append_turn example_bot [two_line_turn])\<lparr>conversation_history := []\<rparr>))
     = reconcile (marker_of Model @ 32 # ascii ''a'' @ [10] @ ascii ''b'')"
    unfolding two_line_turn_def
    by (rule one_turn_read_back [OF a]) (simp_all add: encodable_def ascii_def)
  moreover have "reconcile (marker_of Model @ 32 # ascii ''a'' @ [10] @ ascii ''b'')
      = [\<lparr>role = Model, parts = [ascii ''a'']\<rparr>]"
    by (simp add: reconcile_def line_turns_def marker_of_def str_eval)
  ultimately have 1: "conversation_history
     (load_chat_history ((foldl append_turn example_bot [two_line_turn])\<lparr>conversation_history := []\<rparr>))
     = [\<lparr>role = Model, parts = [ascii ''a'']\<rparr>]"
    by simp
  have "conversation_history
     (load_chat_history ((foldl append_turn example_bot [padded_turn])\<lparr>conversation_history := []\<rparr>))
     = reconcile (marker_of User @ 32 # ascii '' a'')"
    unfolding padded_turn_def
    by (rule one_turn_read_back [OF a]) (simp_all add: encodable_def ascii_def)
  moreover have "reconcile (marker_of User @ 32 # ascii '' a'') = [\<lparr>role = User, parts = [ascii ''a'']\<rparr>]"
    by (simp add: reconcile_def line_turns_def marker_of_def str_eval)
  ultimately have 2: "conversation_history
     (load_chat_history ((foldl append_turn example_bot [padded_turn])\<lparr>conversation_history := []\<rparr>))
     = [\<lparr>role = User, parts = [ascii ''a'']\<rparr>]"
    by simp
  have "reconcile (read_newlines (log_entry User (ascii ''a'' @ [13] @ ascii ''b'') (strftime example_now)))
      = [\<lparr>role = User, parts = [ascii ''a'']\<rparr>]"
    by (simp add: strftime_example log_entry_def role_display_def time_prefix_def reconcile_def
        line_turns_def str_eval)
  then have 3: "conversation_history
     (load_chat_history ((foldl append_turn example_bot [cr_turn])\<lparr>conversation_history := []\<rparr>))
     = [\<lparr>role = User, parts = [ascii ''a'']\<rparr>]"
    unfolding cr_turn_def
    by (subst one_turn_file [OF a]) (simp_all add: encodable_def ascii_def)
  have "conversation_history
     (load_chat_history ((foldl append_turn example_bot [marker_turn])\<lparr>conversation_history := []\<rparr>))
     = reconcile (marker_of User @ 32 # ascii ''a'' @ user_marker)"
    unfolding marker_turn_def
    by (rule one_turn_read_back [OF a]) (simp_all add: encodable_def ascii_def user_marker_def)
  moreover have "reconcile (marker_of User @ 32 # ascii ''a'' @ user_marker)
      = [\<lparr>role = User, parts = [ascii ''a'']\<rparr>]"
    by (simp add: reconcile_def line_turns_def marker_of_def str_eval)
  ultimately have 4: "conversation_history
     (load_chat_history ((foldl append_turn example_bot [marker_turn])\<lparr>conversation_history := []\<rparr>))
     = [\<lparr>role = User, parts = [ascii ''a'']\<rparr>]"
    by simp
  have "conversation_history
     (load_chat_history ((foldl append_turn example_bot [empty_turn])\<lparr>conversation_history := []\<rparr>))
     = reconcile (marker_of User @ 32 # [])"
    unfolding empty_turn_def
    by (rule one_turn_read_back [OF a]) (simp_all add: encodable_def)
  moreover have "reconcile (marker_of User @ 32 # []) = []"
    by (simp add: reconcile_def line_turns_def marker_of_def str_eval)
  ultimately have 5: "conversation_history
     (load_chat_history ((foldl append_turn example_bot [empty_turn])\<lparr>conversation_history := []\<rparr>))
     = []"
    by simp
  have 6: "conversation_history
     (load_chat_history ((foldl append_turn example_bot [surrogate_turn])\<lparr>conversation_history := []\<rparr>))
     = []"
    unfolding surrogate_turn_def
    by (rule one_turn_not_written [OF a]) (simp add: encodable_def)
  have 7: "map turn_of [two_line_turn] = [\<lparr>role = Model, parts = [ascii ''a'' @ [10] @ ascii ''b'']\<rparr>]"
    and 8: "map turn_of [padded_turn] = [\<lparr>role = User, parts = [ascii '' a'']\<rparr>]"
    by (simp_all add: turn_of_def two_line_turn_def padded_turn_def)
  from 1 2 3 4 5 6 7 8 show ?thesis by blast
qed

text \<open>
  C2, amended: for every sequence of N turns, each with a role and a text that is not
  empty, has no whitespace at its start or end, holds no line feed or carriage return, can
  be written as UTF-8 and does not contain the marker of its role, appending the turns
  (\<open>add_message\<close> and \<open>_save_to_log\<close> for each) to a bot whose log file is absent or
  empty, and then reading the log with \<open>_load_chat_history\<close> into an empty history,
  gives exactly the N turns with their roles and texts, in order; the timestamps are not
  read back.
\<close>

theorem append_then_reconcile:
  assumes "files s (chat_log_file s) = Absent \<or> files s (chat_log_file s) = File []"
    and "\<forall>turn \<in> set turns. plain_turn turn"
  shows "conversation_history
           (load_chat_history ((foldl append_turn s turns)\<lparr>conversation_history := []\<rparr>))
         = map turn_of turns
       \<and> conversation_history (foldl append_turn s turns) = conversation_history s @ map turn_of turns"
proof (cases "turns = []")
  case True
  from assms(1) have "conversation_history (load_chat_history (s\<lparr>conversation_history := []\<rparr>)) = []"
    by (auto simp add: load_chat_history_no_file load_chat_history_File reconcile_def line_turns_Nil)
  with True show ?thesis by simp
next
  case False
  let ?c = "concat (map entry_of turns)"
  from assms False have f: "files (foldl append_turn s turns) (chat_log_file s) = File ?c"
    by (rule_tac foldl_append_turn_new_file)
  from assms(2) have "13 \<notin> set ?c"
    by (auto dest: entry_no_cr)
  then have "read_newlines ?c = ?c" by (rule read_newlines_id)
  with f assms(2) show ?thesis
    by (simp add: load_chat_history_File foldl_append_turn_fields reconcile_entries)
qed

theorem append_then_reconcile_witness:
  "conversation_history
     (load_chat_history ((foldl append_turn example_bot spec_example_turns)\<lparr>conversation_history := []\<rparr>))
     = [\<lparr>role = User, parts = [ascii ''hello'']\<rparr>, \<lparr>role = Model, parts = [ascii ''hi there'']\<rparr>]"
proof -
  have a: "files example_bot (chat_log_file example_bot) = Absent
      \<or> files example_bot (chat_log_file example_bot) = File []"
    by (simp add: example_bot_def)
  have b: "\<forall>turn \<in> set spec_example_turns. plain_turn turn"
    by (simp add: spec_example_turns_def plain_turn_def plain_text_def marker_of_def encodable_def
        str_eval)
  from append_then_reconcile [OF a b] show ?thesis
    by (simp add: spec_example_turns_def turn_of_def)
qed

section \<open>Clearing the history\<close>

lemma load_chat_history_log_turns:
  "load_chat_history s
     = s\<lparr>conversation_history := conversation_history s @ log_turns (files s) (chat_log_file s)\<rparr>"
  by (cases "files s (chat_log_file s)")
     (simp_all add: log_turns_def load_chat_history_File load_chat_history_no_file)

lemma log_file_is_not_selection: "log_file_name n \<noteq> last_prompt_path"
  by (simp add: log_file_name_def last_prompt_path_def ascii_def)

lemma save_last_prompt_fields:
  "conversation_history (save_last_prompt s) = conversation_history s"
  "current_prompt (save_last_prompt s) = current_prompt s"
  "chat_log_file (save_last_prompt s) = chat_log_file s"
  "config (save_last_prompt s) = config s"
  "files (save_last_prompt s) (log_file_name n) = files s (log_file_name n)"
  using log_file_is_not_selection [of n]
  by (auto simp add: save_last_prompt_def write_file_def split: file_state.split)

lemma switch_prompt_known:
  assumes "map_of (SYSTEM_PROMPTS P) n = Some instruction"
  shows "conversation_history (snd (switch_prompt P s n)) = log_turns (files s) (log_file_name n)"
    and "current_prompt (snd (switch_prompt P s n)) = n"
    and "chat_log_file (snd (switch_prompt P s n)) = log_file_name n"
    and "config (snd (switch_prompt P s n)) = make_config instruction"
    and "files (snd (switch_prompt P s n)) (log_file_name m) = files s (log_file_name m)"
  using assms
  by (simp_all add: switch_prompt_def Let_def load_chat_history_log_turns save_last_prompt_fields
      log_turns_def)

lemma get_response_appends:
  assumes "client (conversation_history s @ [\<lparr>role = User, parts = [u]\<rparr>]) (config s) = (chunks, Completed)"
    and "foldl add_chunk [] chunks \<noteq> []"
  shows "fst (get_response client now1 now2 s u)
     = foldl append_turn s [(User, u, now1), (Model, foldl add_chunk [] chunks, now2)]"
  using assms by (simp add: get_response_Completed append_turn_def Let_def)


lemma log_turns_after_appends:
  assumes "files s (chat_log_file s) = Absent \<or> files s (chat_log_file s) = File []"
    and "\<forall>turn \<in> set turns. plain_turn turn"
  shows "log_turns (files (foldl append_turn s turns)) (chat_log_file s) = map turn_of turns"
proof (cases "turns = []")
  case True
  with assms(1) show ?thesis
    by (auto simp add: log_turns_def reconcile_def line_turns_Nil)
next
  case False
  let ?c = "concat (map entry_of turns)"
  from assms False have f: "files (foldl append_turn s turns) (chat_log_file s) = File ?c"
    by (rule_tac foldl_append_turn_new_file)
  from assms(2) have "13 \<notin> set ?c"
    by (auto dest: entry_no_cr)
  then have "read_newlines ?c = ?c" by (rule read_newlines_id)
  with f assms(2) show ?thesis
    by (simp add: log_turns_def reconcile_entries)
qed

text \<open>
  C6, as stated, fails: switching to the same prompt after \<open>clear\<close> does not always
  restore the turns that were in memory. After the question \<open>hi\<close> has been answered
  with the two lines \<open>a\<close> and \<open>b\<close>, the history holds the whole answer; after
  \<open>clear_history\<close> and \<open>switch_prompt\<close> to the current prompt it holds the answer
  \<open>a\<close>, which is what reading the log gives.
\<close>

theorem clear_then_switch_counterexample:
  "conversation_history two_line_answer_bot
     = [\<lparr>role = User, parts = [ascii ''hi'']\<rparr>, \<lparr>role = Model, parts = [ascii ''a'' @ [10] @ ascii ''b'']\<rparr>]
   \<and> conversation_history
       (snd (switch_prompt example_prompts (clear_history two_line_answer_bot)
               (current_prompt two_line_answer_bot)))
     = [\<lparr>role = User, parts = [ascii ''hi'']\<rparr>, \<lparr>role = Model, parts = [ascii ''a'']\<rparr>]"
proof -
  let ?t1 = "(User, ascii ''hi'', example_now)"
  let ?t2 = "(Model, ascii ''a'' @ [10] @ ascii ''b'', example_now)"
  have b: "two_line_answer_bot = foldl append_turn example_bot [?t1, ?t2]"
    unfolding two_line_answer_bot_def
    by (subst get_response_appends [where chunks = "[Some (ascii ''a'' @ [10] @ ascii ''b'')]"])
       (simp_all add: answering_service_def add_chunk_def ascii_def)
  have e: "files example_bot (chat_log_file example_bot) = Absent"
    and l: "chat_log_file example_bot = log_file_name (ascii ''default'')"
    and c: "current_prompt example_bot = ascii ''default''"
    and h: "conversation_history example_bot = []"
    by (simp_all add: example_bot_def)
  have 1: "conversation_history two_line_answer_bot = [turn_of ?t1, turn_of ?t2]"
    by (simp add: b append_turn_fields h)
  have "files (append_turn example_bot ?t1) (chat_log_file example_bot) = File (entry_of ?t1)"
    using e by (simp add: append_turn_file encodable_def ascii_def)
  then have "files (append_turn (append_turn example_bot ?t1) ?t2) (chat_log_file example_bot)
      = File (entry_of ?t1 @ entry_of ?t2)"
    using append_turn_file [of ?t2 "append_turn example_bot ?t1"]
    by (simp add: append_turn_fields encodable_def ascii_def)
  then have f: "files two_line_answer_bot (log_file_name (ascii ''default''))
      = File (entry_of ?t1 @ entry_of ?t2)"
    by (simp add: b l)
  have "13 \<notin> set (entry_of ?t1 @ entry_of ?t2)"
    using strftime_chars [of 13 example_now]
    by (auto simp add: entry_of_def log_entry_lines marker_of_def user_marker_def ai_marker_def
        time_prefix_def ascii_def)
  then have r: "read_newlines (entry_of ?t1 @ entry_of ?t2) = entry_of ?t1 @ entry_of ?t2"
    by (rule read_newlines_id)
  have p: "plain_text User (ascii ''hi'')"
    by (simp add: plain_text_def marker_of_def encodable_def str_eval)
  have "log_turns (files two_line_answer_bot) (log_file_name (ascii ''default''))
      = reconcile (read_newlines (entry_of ?t1 @ entry_of ?t2))"
    by (simp only: log_turns_def f file_state.case)
  also have "\<dots> = reconcile (entry_of ?t1 @ entry_of ?t2)"
    by (simp only: r)
  also have "\<dots> = \<lparr>role = User, parts = [ascii ''hi'']\<rparr>
      # reconcile (marker_of Model @ 32 # ascii ''a'' @ [10] @ ascii ''b'')"
    by (simp add: entry_of_def reconcile_entry [OF p] reconcile_single_entry)
  also have "reconcile (marker_of Model @ 32 # ascii ''a'' @ [10] @ ascii ''b'')
      = [\<lparr>role = Model, parts = [ascii ''a'']\<rparr>]"
    by (simp add: reconcile_def line_turns_def marker_of_def str_eval)
  finally have t: "log_turns (files two_line_answer_bot) (log_file_name (ascii ''default''))
      = [\<lparr>role = User, parts = [ascii ''hi'']\<rparr>, \<lparr>role = Model, parts = [ascii ''a'']\<rparr>]" .
  have cp: "current_prompt two_line_answer_bot = ascii ''default''"
    by (simp add: b append_turn_fields c)
  have m: "map_of (SYSTEM_PROMPTS example_prompts) (ascii ''default'') = Some (ascii ''Be brief.'')"
    by (simp add: example_prompts_def)
  have "conversation_history
       (snd (switch_prompt example_prompts (clear_history two_line_answer_bot) (ascii ''default'')))
     = log_turns (files (clear_history two_line_answer_bot)) (log_file_name (ascii ''default''))"
    by (rule switch_prompt_known(1) [OF m])
  with t cp 1 show ?thesis
    by (simp add: clear_history_def turn_of_def)
qed

lemma reconcile_append: "reconcile (a @ 10 # b) = reconcile a @ reconcile b"
  by (simp add: reconcile_def split_nl_append)

lemma reconcile_Nil: "reconcile [] = []"
  by (simp add: reconcile_def line_turns_Nil)

lemma reconcile_read_newlines_append:
  assumes "13 \<notin> set b"
  shows "reconcile (p @ read_newlines (a @ 10 # b)) = reconcile (p @ read_newlines a) @ reconcile b"
  using assms
proof (induction a arbitrary: p rule: read_newlines.induct)
  case 1
  then have "read_newlines (10 # b) = 10 # b"
    using read_newlines_id [of "10 # b"] by simp
  then show ?case by (simp add: reconcile_append)
next
  case (2 c)
  then have b: "read_newlines b = b" and lb: "read_newlines (10 # b) = 10 # b"
    using read_newlines_id [of b] read_newlines_id [of "10 # b"] by simp_all
  show ?case
  proof (cases "c = 13")
    case True
    with b have "read_newlines ([c] @ 10 # b) = 10 # b" by simp
    moreover have "reconcile (p @ [10]) = reconcile p"
      using reconcile_append [of p "[]"] by (simp add: reconcile_Nil)
    ultimately show ?thesis using True by (simp add: reconcile_append)
  next
    case False
    with lb have "read_newlines ([c] @ 10 # b) = c # 10 # b" by simp
    with False show ?thesis
      using reconcile_append [of "p @ [c]" b] by simp
  qed
next
  case (3 c d cs)
  show ?case
  proof (cases "c = 13")
    case True
    show ?thesis
    proof (cases "d = 10")
      case d: True
      from True d "3.IH"(1) [of "[]"] "3.prems"
      have "reconcile (read_newlines (cs @ 10 # b)) = reconcile (read_newlines cs) @ reconcile b"
        by simp
      with True d show ?thesis by (simp add: reconcile_append)
    next
      case d: False
      from True d "3.IH"(2) [of "[]"] "3.prems"
      have "reconcile (read_newlines ((d # cs) @ 10 # b)) = reconcile (read_newlines (d # cs)) @ reconcile b"
        by simp
      with True d show ?thesis by (simp add: reconcile_append)
    qed
  next
    case False
    from False "3.IH"(3) [of "p @ [c]"] "3.prems"
    have "reconcile ((p @ [c]) @ read_newlines ((d # cs) @ 10 # b))
        = reconcile ((p @ [c]) @ read_newlines (d # cs)) @ reconcile b"
      by simp
    with False show ?thesis by simp
  qed
qed

lemma reconcile_entry_tail:
  assumes "plain_turn turn"
  shows "entry_of turn = 10 # tl (entry_of turn)"
    and "13 \<notin> set (tl (entry_of turn))"
    and "reconcile (tl (entry_of turn)) = [turn_of turn]"
proof -
  obtain r t now where turn: "turn = (r, t, now)" by (cases turn)
  show e: "entry_of turn = 10 # tl (entry_of turn)"
    by (simp add: turn entry_of_def log_entry_lines)
  from entry_no_cr [OF assms] e show "13 \<notin> set (tl (entry_of turn))"
    by (metis list.set_intros(2))
  from assms turn have "plain_text r t" by (simp add: plain_turn_def)
  then have "reconcile (entry_of turn @ []) = [turn_of turn]"
    unfolding turn entry_of_def turn_of_def prod.case
    by (subst reconcile_entry) (simp_all add: reconcile_Nil)
  moreover have "reconcile (entry_of turn) = reconcile [] @ reconcile (tl (entry_of turn))"
    using reconcile_append [of "[]" "tl (entry_of turn)"] e by simp
  ultimately show "reconcile (tl (entry_of turn)) = [turn_of turn]"
    by (simp add: reconcile_Nil)
qed

lemma reconcile_after_entry:
  assumes "plain_turn turn"
  shows "reconcile (read_newlines (c @ entry_of turn)) = reconcile (read_newlines c) @ [turn_of turn]"
proof -
  note t = reconcile_entry_tail [OF assms]
  have "reconcile (read_newlines (c @ 10 # tl (entry_of turn)))
      = reconcile (read_newlines c) @ reconcile (tl (entry_of turn))"
    using reconcile_read_newlines_append [OF t(2), of "[]" c] by simp
  with t(1) t(3) show ?thesis by simp
qed

lemma log_turns_append_turn:
  assumes "files s (chat_log_file s) \<noteq> Inaccessible" and "plain_turn turn"
  shows "log_turns (files (append_turn s turn)) (chat_log_file s)
           = log_turns (files s) (chat_log_file s) @ [turn_of turn]"
    and "files (append_turn s turn) (chat_log_file s) \<noteq> Inaccessible"
proof -
  from assms(2) have e: "encodable (fst (snd turn))"
    by (cases turn) (simp add: plain_turn_def plain_text_def)
  note f = append_turn_file [OF e, of s]
  from assms(1) f show "files (append_turn s turn) (chat_log_file s) \<noteq> Inaccessible"
    by (cases "files s (chat_log_file s)") simp_all
  show "log_turns (files (append_turn s turn)) (chat_log_file s)
           = log_turns (files s) (chat_log_file s) @ [turn_of turn]"
  proof (cases "files s (chat_log_file s)")
    case Absent
    with f reconcile_after_entry [OF assms(2), of "[]"] show ?thesis
      by (simp add: log_turns_def reconcile_Nil)
  next
    case Inaccessible
    with assms(1) show ?thesis by simp
  next
    case (File c)
    with f reconcile_after_entry [OF assms(2), of c] show ?thesis
      by (simp add: log_turns_def)
  qed
qed

lemma log_turns_foldl_append_turn:
  assumes "files s (chat_log_file s) \<noteq> Inaccessible" and "\<forall>turn \<in> set turns. plain_turn turn"
  shows "log_turns (files (foldl append_turn s turns)) (chat_log_file s)
           = log_turns (files s) (chat_log_file s) @ map turn_of turns"
  using assms
proof (induction turns arbitrary: s)
  case Nil
  then show ?case by simp
next
  case (Cons turn turns)
  from Cons.prems have p: "plain_turn turn" by simp
  note a = log_turns_append_turn [OF Cons.prems(1) p]
  from a(2) have "files (append_turn s turn) (chat_log_file (append_turn s turn)) \<noteq> Inaccessible"
    by (simp add: append_turn_fields)
  with Cons.IH [of "append_turn s turn"] Cons.prems(2) a(1) show ?case
    by (simp add: append_turn_fields)
qed

lemma foldl_append_turn_prompt: "current_prompt (foldl append_turn s turns) = current_prompt s"
  by (induction turns arbitrary: s) (simp_all add: append_turn_fields)

lemma log_turns_cong: "fs p = fs' p \<Longrightarrow> log_turns fs p = log_turns fs' p"
  by (simp add: log_turns_def)

text \<open>
  C6, amended: \<open>clear_history\<close> empties the conversation history and leaves the active
  prompt, the log file name, the configuration and every file as they were. A following
  \<open>switch_prompt\<close> to the current prompt (a key of \<open>SYSTEM_PROMPTS\<close>) reads the log
  again: the history is then exactly the turns that reading the prompt's log file gives,
  the prompt is the same and the log files are unchanged. The turns from before the
  clearing come back whenever the history was read from the log (as it is after every
  successful \<open>switch_prompt\<close>), the log file can be written, and every turn appended
  since has a plain text: not empty, no whitespace at either end, no line break, writable
  as UTF-8 and without the marker of its role.
\<close>

theorem clear_then_switch_rereads_log:
  assumes "map_of (SYSTEM_PROMPTS P) (current_prompt s) = Some instruction"
  shows "conversation_history (clear_history s) = []
       \<and> current_prompt (clear_history s) = current_prompt s
       \<and> chat_log_file (clear_history s) = chat_log_file s
       \<and> config (clear_history s) = config s
       \<and> files (clear_history s) = files s
       \<and> conversation_history (snd (switch_prompt P (clear_history s) (current_prompt s)))
           = log_turns (files s) (log_file_name (current_prompt s))
       \<and> current_prompt (snd (switch_prompt P (clear_history s) (current_prompt s))) = current_prompt s
       \<and> files (snd (switch_prompt P (clear_history s) (current_prompt s))) (log_file_name n)
           = files s (log_file_name n)
       \<and> (chat_log_file s = log_file_name (current_prompt s)
            \<and> files s (chat_log_file s) \<noteq> Inaccessible
            \<and> conversation_history s = log_turns (files s) (chat_log_file s)
            \<and> (\<forall>turn \<in> set turns. plain_turn turn)
            \<longrightarrow> conversation_history (foldl append_turn s turns)
                   = conversation_history s @ map turn_of turns
                \<and> conversation_history
                     (snd (switch_prompt P (clear_history (foldl append_turn s turns))
                             (current_prompt (foldl append_turn s turns))))
                   = conversation_history (foldl append_turn s turns))
       \<and> conversation_history (snd (switch_prompt P s0 (current_prompt s)))
           = log_turns (files (snd (switch_prompt P s0 (current_prompt s))))
               (chat_log_file (snd (switch_prompt P s0 (current_prompt s))))
       \<and> chat_log_file (snd (switch_prompt P s0 (current_prompt s)))
           = log_file_name (current_prompt (snd (switch_prompt P s0 (current_prompt s))))"
proof -
  have c: "current_prompt (clear_history s) = current_prompt s" "files (clear_history s) = files s"
    by (simp_all add: clear_history_def)
  from assms have "map_of (SYSTEM_PROMPTS P) (current_prompt (clear_history s)) = Some instruction"
    by (simp add: c)
  from switch_prompt_known [OF this, of "clear_history s"]
  have 1: "conversation_history (clear_history s) = []
       \<and> current_prompt (clear_history s) = current_prompt s
       \<and> chat_log_file (clear_history s) = chat_log_file s
       \<and> config (clear_history s) = config s
       \<and> files (clear_history s) = files s
       \<and> conversation_history (snd (switch_prompt P (clear_history s) (current_prompt s)))
           = log_turns (files s) (log_file_name (current_prompt s))
       \<and> current_prompt (snd (switch_prompt P (clear_history s) (current_prompt s))) = current_prompt s
       \<and> files (snd (switch_prompt P (clear_history s) (current_prompt s))) (log_file_name n)
           = files s (log_file_name n)"
    by (simp add: c) (simp add: clear_history_def)
  have 2: "chat_log_file s = log_file_name (current_prompt s)
            \<and> files s (chat_log_file s) \<noteq> Inaccessible
            \<and> conversation_history s = log_turns (files s) (chat_log_file s)
            \<and> (\<forall>turn \<in> set turns. plain_turn turn)
            \<longrightarrow> conversation_history (foldl append_turn s turns)
                   = conversation_history s @ map turn_of turns
                \<and> conversation_history
                     (snd (switch_prompt P (clear_history (foldl append_turn s turns))
                             (current_prompt (foldl append_turn s turns))))
                   = conversation_history (foldl append_turn s turns)"
  proof (intro impI, elim conjE)
    let ?s = "foldl append_turn s turns"
    assume l: "chat_log_file s = log_file_name (current_prompt s)"
      and f: "files s (chat_log_file s) \<noteq> Inaccessible"
      and h: "conversation_history s = log_turns (files s) (chat_log_file s)"
      and p: "\<forall>turn \<in> set turns. plain_turn turn"
    have m: "map_of (SYSTEM_PROMPTS P) (current_prompt s) = Some instruction"
      by (rule assms)
    have "conversation_history (snd (switch_prompt P (clear_history ?s) (current_prompt s)))
        = log_turns (files (clear_history ?s)) (log_file_name (current_prompt s))"
      by (rule switch_prompt_known(1) [OF m])
    also have "\<dots> = log_turns (files ?s) (chat_log_file s)"
      by (simp add: clear_history_def l)
    also have "\<dots> = log_turns (files s) (chat_log_file s) @ map turn_of turns"
      by (rule log_turns_foldl_append_turn [OF f p])
    also have "\<dots> = conversation_history ?s"
      by (simp add: h foldl_append_turn_fields)
    finally show "conversation_history ?s = conversation_history s @ map turn_of turns
        \<and> conversation_history
             (snd (switch_prompt P (clear_history ?s) (current_prompt ?s)))
           = conversation_history ?s"
      by (simp add: foldl_append_turn_fields foldl_append_turn_prompt)
  qed
  from switch_prompt_known [OF assms, of s0]
  have 3: "conversation_history (snd (switch_prompt P s0 (current_prompt s)))
           = log_turns (files (snd (switch_prompt P s0 (current_prompt s))))
               (chat_log_file (snd (switch_prompt P s0 (current_prompt s))))
       \<and> chat_log_file (snd (switch_prompt P s0 (current_prompt s)))
           = log_file_name (current_prompt (snd (switch_prompt P s0 (current_prompt s))))"
    by (simp add: log_turns_def)
  from 1 2 3 show ?thesis by blast
qed

theorem clear_then_switch_rereads_log_witness:
  "conversation_history plain_answer_bot
     = [\<lparr>role = User, parts = [ascii ''hello'']\<rparr>, \<lparr>role = Model, parts = [ascii ''hi there'']\<rparr>]
   \<and> conversation_history
       (snd (switch_prompt example_prompts (clear_history plain_answer_bot)
               (current_prompt plain_answer_bot)))
     = conversation_history plain_answer_bot"
proof -
  have b: "plain_answer_bot = foldl append_turn example_bot spec_example_turns"
    unfolding plain_answer_bot_def spec_example_turns_def
    by (subst get_response_appends [where chunks = "[Some (ascii ''hi there'')]"])
       (simp_all add: answering_service_def add_chunk_def ascii_def)
  have l: "chat_log_file example_bot = log_file_name (current_prompt example_bot)"
    and f: "files example_bot (chat_log_file example_bot) \<noteq> Inaccessible"
    and h: "conversation_history example_bot = log_turns (files example_bot) (chat_log_file example_bot)"
    and e: "conversation_history example_bot = []"
    by (simp_all add: example_bot_def log_turns_def)
  have p: "\<forall>turn \<in> set spec_example_turns. plain_turn turn"
    by (simp add: spec_example_turns_def plain_turn_def plain_text_def marker_of_def encodable_def
        str_eval)
  have m: "map_of (SYSTEM_PROMPTS example_prompts) (current_prompt example_bot)
      = Some (ascii ''Be brief.'')"
    by (simp add: example_bot_def example_prompts_def)
  from clear_then_switch_rereads_log [OF m, of "[]" spec_example_turns example_bot] l f h p
  have "conversation_history (foldl append_turn example_bot spec_example_turns)
          = conversation_history example_bot @ map turn_of spec_example_turns
      \<and> conversation_history
           (snd (switch_prompt example_prompts
                   (clear_history (foldl append_turn example_bot spec_example_turns))
                   (current_prompt (foldl append_turn example_bot spec_example_turns))))
          = conversation_history (foldl append_turn example_bot spec_example_turns)"
    by blast
  then show ?thesis
    unfolding b by (simp add: e spec_example_turns_def turn_of_def)
qed

end
